theory Spec2Isabelle
  imports Complex_Main "HOL-Library.Sublist" "HOL-Library.Monad_Syntax"
begin

section \<open>The JavaScript runtime the application computes with\<close>

text \<open>
  The application is a single TypeScript module (a React component tree). Its calendar,
  filter, reschedule and aggregation code computes with the built-in \<open>Date\<close> object and with
  strings, so the embedding starts with the part of the ECMAScript library that the code
  calls. Each definition below follows the abstract operation of the same name in the
  ECMAScript specification (section "Date Objects").

  \<^item> A JavaScript \<open>number\<close> that reaches this code is an integer or \<open>NaN\<close>: it is an
    \<open>int option\<close>, \<open>None\<close> standing for \<open>NaN\<close>.
  \<^item> A \<open>Date\<close> is its time value: milliseconds since the epoch in UTC, or \<open>NaN\<close> for an
    "Invalid Date".
  \<^item> The local time zone is a parameter \<open>tza\<close>, the offset of local time from UTC in
    milliseconds. It is one constant for the whole run: a zone without daylight-saving
    transitions (America/Sao Paulo, the zone of the application's locale, is UTC-3, that is
    \<open>tza = -10800000\<close>).
  \<^item> A string is a list of code units below 256 (the Latin-1 range of UTF-16).
\<close>

type_synonym number = "int option"
type_synonym Date = "int option"

datatype js_error = RangeError | TypeError

definition msPerDay :: int where "msPerDay = 86400000"
definition msPerHour :: int where "msPerHour = 3600000"
definition msPerMinute :: int where "msPerMinute = 60000"
definition msPerSecond :: int where "msPerSecond = 1000"

definition Day :: "int \<Rightarrow> int" where
  "Day t = t div msPerDay"

definition TimeWithinDay :: "int \<Rightarrow> int" where
  "TimeWithinDay t = t mod msPerDay"

definition DaysInYear :: "int \<Rightarrow> int" where
  "DaysInYear y = (if y mod 4 \<noteq> 0 then 365 else if y mod 100 \<noteq> 0 then 366
                   else if y mod 400 \<noteq> 0 then 365 else 366)"

definition DayFromYear :: "int \<Rightarrow> int" where
  "DayFromYear y = 365 * (y - 1970) + (y - 1969) div 4 - (y - 1901) div 100 + (y - 1601) div 400"

text \<open>
  \<open>YearFromTime t\<close> is the largest year \<open>y\<close> with \<open>DayFromYear y \<le> Day t\<close>. It is computed
  from the estimate \<open>1970 + Day t / 365.2425\<close>, which is off by at most one
  (lemma \<open>YearFromTime_bounds\<close> below proves the characterisation).
\<close>

definition YearFromTime :: "int \<Rightarrow> int" where
  "YearFromTime t =
     (let d = Day t; y0 = 1970 + (d * 400) div 146097
      in if DayFromYear (y0 + 1) \<le> d then y0 + 1
         else if DayFromYear y0 \<le> d then y0 else y0 - 1)"

definition InLeapYear :: "int \<Rightarrow> int" where
  "InLeapYear t = (if DaysInYear (YearFromTime t) = 366 then 1 else 0)"

definition DayWithinYear :: "int \<Rightarrow> int" where
  "DayWithinYear t = Day t - DayFromYear (YearFromTime t)"

definition MonthFromTime :: "int \<Rightarrow> int" where
  "MonthFromTime t =
     (let d = DayWithinYear t; l = InLeapYear t
      in if d < 31 then 0 else if d < 59 + l then 1 else if d < 90 + l then 2
         else if d < 120 + l then 3 else if d < 151 + l then 4 else if d < 181 + l then 5
         else if d < 212 + l then 6 else if d < 243 + l then 7 else if d < 273 + l then 8
         else if d < 304 + l then 9 else if d < 334 + l then 10 else 11)"

definition DateFromTime :: "int \<Rightarrow> int" where
  "DateFromTime t =
     (let d = DayWithinYear t; l = InLeapYear t; m = MonthFromTime t
      in if m = 0 then d + 1 else if m = 1 then d - 30 else if m = 2 then d - 58 - l
         else if m = 3 then d - 89 - l else if m = 4 then d - 119 - l
         else if m = 5 then d - 150 - l else if m = 6 then d - 180 - l
         else if m = 7 then d - 211 - l else if m = 8 then d - 242 - l
         else if m = 9 then d - 272 - l else if m = 10 then d - 303 - l else d - 333 - l)"

definition WeekDay :: "int \<Rightarrow> int" where
  "WeekDay t = (Day t + 4) mod 7"

definition LocalTime :: "int \<Rightarrow> int \<Rightarrow> int" where
  "LocalTime tza t = t + tza"

definition UTC :: "int \<Rightarrow> int \<Rightarrow> int" where
  "UTC tza t = t - tza"

definition HourFromTime :: "int \<Rightarrow> int" where
  "HourFromTime t = (t div msPerHour) mod 24"

definition MinFromTime :: "int \<Rightarrow> int" where
  "MinFromTime t = (t div msPerMinute) mod 60"

definition SecFromTime :: "int \<Rightarrow> int" where
  "SecFromTime t = (t div msPerSecond) mod 60"

definition msFromTime :: "int \<Rightarrow> int" where
  "msFromTime t = t mod msPerSecond"

definition MakeTime :: "int \<Rightarrow> int \<Rightarrow> int \<Rightarrow> int \<Rightarrow> int" where
  "MakeTime hour minute sec ms = hour * msPerHour + minute * msPerMinute + sec * msPerSecond + ms"

text \<open>Days from the start of a year to the start of month \<open>mn\<close> (0 = January).\<close>

definition DaysBeforeMonth :: "int \<Rightarrow> int \<Rightarrow> int" where
  "DaysBeforeMonth l mn =
     (if mn = 0 then 0 else if mn = 1 then 31 else if mn = 2 then 59 + l
      else if mn = 3 then 90 + l else if mn = 4 then 120 + l else if mn = 5 then 151 + l
      else if mn = 6 then 181 + l else if mn = 7 then 212 + l else if mn = 8 then 243 + l
      else if mn = 9 then 273 + l else if mn = 10 then 304 + l else 334 + l)"

text \<open>
  \<open>MakeDay\<close> normalises the month into the year (\<open>month\<close> 12 is January of the next year)
  and lets the day of the month run over: day 0 is the last day of the month before.
\<close>

definition MakeDay :: "int \<Rightarrow> int \<Rightarrow> int \<Rightarrow> int" where
  "MakeDay year month date =
     (let ym = year + month div 12; mn = month mod 12;
          l = (if DaysInYear ym = 366 then 1 else 0)
      in DayFromYear ym + DaysBeforeMonth l mn + date - 1)"

definition MakeDate :: "int \<Rightarrow> int \<Rightarrow> int" where
  "MakeDate day time = day * msPerDay + time"

definition TimeClip :: "int \<Rightarrow> Date" where
  "TimeClip t = (if \<bar>t\<bar> > 8640000000000000 then None else Some t)"

text \<open>The \<open>Date\<close> constructor reads a year from 0 to 99 as a year of the twentieth century.\<close>

definition MakeFullYear :: "int \<Rightarrow> int" where
  "MakeFullYear y = (if 0 \<le> y \<and> y \<le> 99 then 1900 + y else y)"

subsection \<open>The Date object\<close>

text \<open>\<open>new Date(year, month, date, hours, minutes, seconds, ms)\<close>: local-time components.\<close>

definition new_Date :: "int \<Rightarrow> number \<Rightarrow> number \<Rightarrow> number \<Rightarrow> number \<Rightarrow> number \<Rightarrow> number \<Rightarrow> number \<Rightarrow> Date" where
  "new_Date tza year month date hours minutes seconds ms =
     do { y \<leftarrow> year; m \<leftarrow> month; dt \<leftarrow> date; h \<leftarrow> hours; mi \<leftarrow> minutes; s \<leftarrow> seconds; milli \<leftarrow> ms;
          TimeClip (UTC tza (MakeDate (MakeDay (MakeFullYear y) m dt) (MakeTime h mi s milli))) }"

definition getTime :: "Date \<Rightarrow> number" where
  "getTime d = d"

definition getFullYear :: "int \<Rightarrow> Date \<Rightarrow> number" where
  "getFullYear tza d = map_option (\<lambda>t. YearFromTime (LocalTime tza t)) d"

definition getMonth :: "int \<Rightarrow> Date \<Rightarrow> number" where
  "getMonth tza d = map_option (\<lambda>t. MonthFromTime (LocalTime tza t)) d"

definition getDate :: "int \<Rightarrow> Date \<Rightarrow> number" where
  "getDate tza d = map_option (\<lambda>t. DateFromTime (LocalTime tza t)) d"

definition getDay :: "int \<Rightarrow> Date \<Rightarrow> number" where
  "getDay tza d = map_option (\<lambda>t. WeekDay (LocalTime tza t)) d"

definition getHours :: "int \<Rightarrow> Date \<Rightarrow> number" where
  "getHours tza d = map_option (\<lambda>t. HourFromTime (LocalTime tza t)) d"

definition getMinutes :: "int \<Rightarrow> Date \<Rightarrow> number" where
  "getMinutes tza d = map_option (\<lambda>t. MinFromTime (LocalTime tza t)) d"

definition getSeconds :: "int \<Rightarrow> Date \<Rightarrow> number" where
  "getSeconds tza d = map_option (\<lambda>t. SecFromTime (LocalTime tza t)) d"

definition getMilliseconds :: "int \<Rightarrow> Date \<Rightarrow> number" where
  "getMilliseconds tza d = map_option (\<lambda>t. msFromTime (LocalTime tza t)) d"

text \<open>\<open>d.setHours(hour, minute, sec, ms)\<close> keeps the local day and replaces the time within it.\<close>

definition setHours :: "int \<Rightarrow> Date \<Rightarrow> int \<Rightarrow> int \<Rightarrow> int \<Rightarrow> int \<Rightarrow> Date" where
  "setHours tza d hour minute sec ms =
     do { t \<leftarrow> d;
          TimeClip (UTC tza (MakeDate (Day (LocalTime tza t)) (MakeTime hour minute sec ms))) }"

text \<open>
  The operators \<open><\<close>, \<open>>\<close>, \<open><=\<close> and \<open>===\<close> on numbers (a \<open>Date\<close> operand of a relational
  operator is converted to its time value): every comparison with \<open>NaN\<close> is false.
\<close>

definition num_lt :: "number \<Rightarrow> number \<Rightarrow> bool" where
  "num_lt a b = (case (a, b) of (Some x, Some y) \<Rightarrow> x < y | _ \<Rightarrow> False)"

definition num_gt :: "number \<Rightarrow> number \<Rightarrow> bool" where
  "num_gt a b = num_lt b a"

definition num_le :: "number \<Rightarrow> number \<Rightarrow> bool" where
  "num_le a b = (case (a, b) of (Some x, Some y) \<Rightarrow> x \<le> y | _ \<Rightarrow> False)"

definition num_eq :: "number \<Rightarrow> number \<Rightarrow> bool" where
  "num_eq a b = (case (a, b) of (Some x, Some y) \<Rightarrow> x = y | _ \<Rightarrow> False)"

definition num_add :: "number \<Rightarrow> number \<Rightarrow> number" where
  "num_add a b = do { x \<leftarrow> a; y \<leftarrow> b; Some (x + y) }"

subsection \<open>Numbers of money: IEEE 754 double precision\<close>

text \<open>
  A \<open>number\<close> that is not a time value is a double: a finite value (the rational it denotes;
  \<open>Finite 0\<close> is \<open>+0\<close>), \<open>-0\<close>, the two infinities, or \<open>NaN\<close>. \<open>round_double\<close> is the rounding of
  a rational to the nearest double, ties to the even significand: 53 bits of significand, the
  least exponent of a unit in the last place \<open>-1074\<close> (subnormal numbers), overflow to an
  infinity when the rounded value reaches \<open>2^1024\<close>, that is when its exponent reaches 1024.
  \<open>dadd\<close> is the \<open>+\<close> of two numbers: the exact sum, rounded. \<open>is_double\<close> holds of the values
  of the type that are doubles.
\<close>

datatype double = Finite rat | NegZero | PosInfinity | NegInfinity | NaN

function bit_length :: "int \<Rightarrow> int" where
  "bit_length n = (if n \<le> 0 then 0 else 1 + bit_length (n div 2))"
  by auto
termination by (relation "measure nat") auto

definition pow2 :: "int \<Rightarrow> rat" where
  "pow2 e = (if 0 \<le> e then 2 ^ nat e else 1 / 2 ^ nat (- e))"

text \<open>The exponent of a positive rational \<open>x\<close>: the \<open>e\<close> with \<open>2^e \<le> x < 2^(e+1)\<close>.\<close>

definition ilog2 :: "rat \<Rightarrow> int" where
  "ilog2 x =
     (let (p, q) = quotient_of x;
          e0 = bit_length p - bit_length q
      in if pow2 e0 \<le> x then e0 else e0 - 1)"

definition round_half_even :: "rat \<Rightarrow> int" where
  "round_half_even y =
     (let f = \<lfloor>y\<rfloor>; d = y - of_int f
      in if d < 1 / 2 then f
         else if 1 / 2 < d then f + 1
         else if even f then f else f + 1)"

definition ulp_exponent :: "rat \<Rightarrow> int" where
  "ulp_exponent x = max (ilog2 \<bar>x\<bar> - 52) (- 1074)"

definition round_double :: "rat \<Rightarrow> double" where
  "round_double x =
     (if x = 0 then Finite 0
      else
        (let q = ulp_exponent x;
             r = of_int (round_half_even (x / pow2 q)) * pow2 q
         in if r = 0 then (if x < 0 then NegZero else Finite 0)
            else if 1024 \<le> ilog2 \<bar>r\<bar> then (if x < 0 then NegInfinity else PosInfinity)
            else Finite r))"

fun is_double :: "double \<Rightarrow> bool" where
  "is_double (Finite x) =
     (x = 0 \<or> (ilog2 \<bar>x\<bar> < 1024
               \<and> of_int \<lfloor>x / pow2 (ulp_exponent x)\<rfloor> = x / pow2 (ulp_exponent x)))"
| "is_double _ = True"

fun dadd :: "double \<Rightarrow> double \<Rightarrow> double" where
  "dadd NaN _ = NaN"
| "dadd _ NaN = NaN"
| "dadd PosInfinity NegInfinity = NaN"
| "dadd NegInfinity PosInfinity = NaN"
| "dadd PosInfinity _ = PosInfinity"
| "dadd _ PosInfinity = PosInfinity"
| "dadd NegInfinity _ = NegInfinity"
| "dadd _ NegInfinity = NegInfinity"
| "dadd NegZero NegZero = NegZero"
| "dadd NegZero (Finite b) = Finite b"
| "dadd (Finite a) NegZero = Finite a"
| "dadd (Finite a) (Finite b) = round_double (a + b)"

text \<open>\<open>ToBoolean\<close> of a number: \<open>+0\<close>, \<open>-0\<close> and \<open>NaN\<close> are falsy.\<close>

fun ToBoolean :: "double \<Rightarrow> bool" where
  "ToBoolean (Finite x) = (x \<noteq> 0)"
| "ToBoolean NegZero = False"
| "ToBoolean NaN = False"
| "ToBoolean _ = True"

subsection \<open>Strings: decimal fields, the date-time string format\<close>

definition digit_char :: "int \<Rightarrow> char" where
  "digit_char n = char_of (48 + n)"

definition is_digit :: "char \<Rightarrow> bool" where
  "is_digit c = (48 \<le> (of_char c :: int) \<and> (of_char c :: int) \<le> 57)"

definition digit_val :: "char \<Rightarrow> int" where
  "digit_val c = of_char c - 48"

text \<open>\<open>pad k n\<close> is \<open>String(n).padStart(k, '0')\<close> for \<open>0 \<le> n < 10^k\<close>.\<close>

fun pad :: "nat \<Rightarrow> int \<Rightarrow> string" where
  "pad 0 n = []"
| "pad (Suc k) n = pad k (n div 10) @ [digit_char (n mod 10)]"

definition read_digits :: "string \<Rightarrow> int option" where
  "read_digits s =
     (if s \<noteq> [] \<and> list_all is_digit s
      then Some (foldl (\<lambda>a c. 10 * a + digit_val c) 0 s) else None)"

text \<open>A field of exactly \<open>k\<close> decimal digits at the head of \<open>s\<close>, and the rest of \<open>s\<close>.\<close>

definition field :: "nat \<Rightarrow> string \<Rightarrow> (int \<times> string) option" where
  "field k s =
     (if length s < k then None
      else map_option (\<lambda>v. (v, drop k s)) (read_digits (take k s)))"

definition expect :: "char \<Rightarrow> string \<Rightarrow> string option" where
  "expect c s = (case s of [] \<Rightarrow> None | x # r \<Rightarrow> if x = c then Some r else None)"

text \<open>
  \<open>d.toISOString()\<close>: the UTC fields as \<open>YYYY-MM-DDTHH:mm:ss.sssZ\<close>, the year with a sign and
  six digits outside 0..9999. It throws a \<open>RangeError\<close> on an Invalid Date.
\<close>

definition year_string :: "int \<Rightarrow> string" where
  "year_string y =
     (if 0 \<le> y \<and> y \<le> 9999 then pad 4 y
      else (if y < 0 then CHR ''-'' else CHR ''+'') # pad 6 \<bar>y\<bar>)"

definition toISOString :: "Date \<Rightarrow> js_error + string" where
  "toISOString d =
     (case d of
        None \<Rightarrow> Inl RangeError
      | Some t \<Rightarrow>
          Inr (year_string (YearFromTime t) @ ''-'' @ pad 2 (MonthFromTime t + 1) @ ''-''
               @ pad 2 (DateFromTime t) @ ''T'' @ pad 2 (HourFromTime t) @ '':''
               @ pad 2 (MinFromTime t) @ '':'' @ pad 2 (SecFromTime t) @ ''.''
               @ pad 3 (msFromTime t) @ ''Z''))"

text \<open>
  \<open>Date.parse\<close> on the ECMAScript date-time string format: \<open>YYYY\<close>, \<open>YYYY-MM\<close> or
  \<open>YYYY-MM-DD\<close> (or a signed six-digit year), then optionally \<open>T\<close> with \<open>HH:mm\<close>,
  \<open>HH:mm:ss\<close> or \<open>HH:mm:ss.sss\<close>, then optionally \<open>Z\<close> or \<open>+HH:mm\<close> / \<open>-HH:mm\<close>. With no
  offset, a date-only form is UTC and a date-time form is local time. A string outside
  the format is \<open>NaN\<close> here (an engine may accept more by heuristics of its own; the empty
  string is \<open>NaN\<close> in every engine).
\<close>

definition parse_year :: "string \<Rightarrow> (int \<times> string) option" where
  "parse_year s =
     (case s of
        [] \<Rightarrow> None
      | c # r \<Rightarrow>
          if c = CHR ''+'' then field 6 r
          else if c = CHR ''-''
          then do { (v, r') \<leftarrow> field 6 r; if v = 0 then None else Some (- v, r') }
          else field 4 s)"

definition parse_date :: "string \<Rightarrow> (int \<times> int \<times> int \<times> string) option" where
  "parse_date s =
     do { (y, r1) \<leftarrow> parse_year s;
          case expect CHR ''-'' r1 of
            None \<Rightarrow> Some (y, 1, 1, r1)
          | Some r1' \<Rightarrow>
              do { (m, r2) \<leftarrow> field 2 r1';
                   case expect CHR ''-'' r2 of
                     None \<Rightarrow> Some (y, m, 1, r2)
                   | Some r2' \<Rightarrow> do { (d, r3) \<leftarrow> field 2 r2'; Some (y, m, d, r3) } } }"

definition parse_time :: "string \<Rightarrow> (int \<times> int \<times> int \<times> int \<times> string) option" where
  "parse_time s =
     do { r0 \<leftarrow> expect CHR ''T'' s;
          (h, r1) \<leftarrow> field 2 r0;
          r1' \<leftarrow> expect CHR '':'' r1;
          (mi, r2) \<leftarrow> field 2 r1';
          case expect CHR '':'' r2 of
            None \<Rightarrow> Some (h, mi, 0, 0, r2)
          | Some r2' \<Rightarrow>
              do { (sec, r3) \<leftarrow> field 2 r2';
                   case expect CHR ''.'' r3 of
                     None \<Rightarrow> Some (h, mi, sec, 0, r3)
                   | Some r3' \<Rightarrow> do { (ms, r4) \<leftarrow> field 3 r3'; Some (h, mi, sec, ms, r4) } } }"

text \<open>The offset in minutes east of UTC; \<open>None\<close> inside \<open>Some\<close> when the string has none.\<close>

definition parse_offset :: "string \<Rightarrow> int option option" where
  "parse_offset s =
     (case s of
        [] \<Rightarrow> Some None
      | c # r \<Rightarrow>
          if c = CHR ''Z'' then (if r = [] then Some (Some 0) else None)
          else if c = CHR ''+'' \<or> c = CHR ''-''
          then do { (h, r1) \<leftarrow> field 2 r;
                    r1' \<leftarrow> expect CHR '':'' r1;
                    (mi, r2) \<leftarrow> field 2 r1';
                    if r2 = [] \<and> h \<le> 23 \<and> mi \<le> 59
                    then Some (Some ((if c = CHR ''-'' then - 1 else 1) * (h * 60 + mi)))
                    else None }
          else None)"

definition Date_parse :: "int \<Rightarrow> string \<Rightarrow> Date" where
  "Date_parse tza s =
     do { (y, m, d, r) \<leftarrow> parse_date s;
          if \<not> (1 \<le> m \<and> m \<le> 12 \<and> 1 \<le> d \<and> d \<le> 31) then None
          else if r = [] then TimeClip (MakeDate (MakeDay y (m - 1) d) 0)
          else
            do { (h, mi, sec, ms, r') \<leftarrow> parse_time r;
                 off \<leftarrow> parse_offset r';
                 if \<not> (h \<le> 24 \<and> mi \<le> 59 \<and> sec \<le> 59 \<and> (h = 24 \<longrightarrow> mi = 0 \<and> sec = 0 \<and> ms = 0))
                 then None
                 else
                   (let t = MakeDate (MakeDay y (m - 1) d) (MakeTime h mi sec ms)
                    in case off of
                         None \<Rightarrow> TimeClip (UTC tza t)
                       | Some minutes \<Rightarrow> TimeClip (t - minutes * msPerMinute)) } }"

text \<open>\<open>new Date(s)\<close> for a string \<open>s\<close> is \<open>Date.parse\<close>, clipped.\<close>

definition new_Date_string :: "int \<Rightarrow> string \<Rightarrow> Date" where
  "new_Date_string tza s = Date_parse tza s"

text \<open>
  \<open>s.toLowerCase()\<close> and \<open>s.trim()\<close> on code units below 256: the letters \<open>A\<close>..\<open>Z\<close> and the
  Latin-1 capitals 0xC0..0xDE (0xD7, the multiplication sign, is no letter) move up by 32;
  white space is tab, line feed, vertical tab, form feed, carriage return, space and the
  no-break space.
\<close>

definition lower_char :: "char \<Rightarrow> char" where
  "lower_char c =
     (let n = (of_char c :: nat)
      in if (65 \<le> n \<and> n \<le> 90) \<or> (192 \<le> n \<and> n \<le> 222 \<and> n \<noteq> 215) then char_of (n + 32) else c)"

definition toLowerCase :: "string \<Rightarrow> string" where
  "toLowerCase s = map lower_char s"

definition isWhiteSpace :: "char \<Rightarrow> bool" where
  "isWhiteSpace c = ((of_char c :: nat) \<in> {9, 10, 11, 12, 13, 32, 160})"

definition trim :: "string \<Rightarrow> string" where
  "trim s = rev (dropWhile isWhiteSpace (rev (dropWhile isWhiteSpace s)))"

text \<open>\<open>h.includes(n)\<close>: \<open>n\<close> occurs in \<open>h\<close> as a contiguous run of code units.\<close>

definition includes_str :: "string \<Rightarrow> string \<Rightarrow> bool" where
  "includes_str h n = sublist n h"


section \<open>Data types of the application\<close>

text \<open>
  The interfaces of the module. Field names are those of the source; \<open>id\<close> and \<open>name\<close>
  occur in several interfaces and \<open>id\<close> is the identity function of HOL, so these carry
  the interface as a prefix. \<open>Surgery\<close> is \<open>Omit<Surgery, 'id'>\<close> (the form data of the
  modal) extended by the identifier. \<open>authStatus\<close> and \<open>surgeryStatus\<close> are strings, as
  they are at run time (the rows come from the remote store unchecked). \<open>totalValue\<close> is a
  \<open>number\<close> of money, a double; \<open>None\<close> stands for the values \<open>null\<close> and \<open>undefined\<close> of a
  row that lacks it.
\<close>

record Doctor =
  doctor_id :: string
  doctor_name :: string
  color :: string

record UserProfile =
  profile_id :: string
  doctor_id_of :: string
  is_admin :: "bool option"
  profile_name :: "string option"

record Hospital =
  hospital_id :: string
  hospital_name :: string

record InsurancePlan =
  plan_id :: string
  plan_name :: string

record Material =
  material_name :: string
  quantity :: int

record SurgeryData =
  patientName :: string
  mainSurgeonId :: string
  participatingIds :: "string list"
  dateTime :: string
  hospitalId :: string
  insuranceId :: string
  authStatus :: string
  surgeryStatus :: string
  totalValue :: "double option"
  materials :: "Material list"
  surgery_notes :: string

record Surgery = SurgeryData +
  surgery_id :: string

datatype ToastType = ToastSuccess | ToastError

section \<open>CalendarView\<close>

text \<open>
  \<open>calendarGrid\<close>: the two \<open>for\<close> loops push onto \<open>grid\<close>; a cell is \<open>null\<close> (\<open>None\<close>) or a
  \<open>Date\<close>. A bound that is \<open>NaN\<close> ends a loop at once.
\<close>

function push_nulls :: "int \<Rightarrow> number \<Rightarrow> Date option list \<Rightarrow> Date option list" where
  "push_nulls i firstDayOfMonth grid =
     (if num_lt (Some i) firstDayOfMonth
      then push_nulls (i + 1) firstDayOfMonth (grid @ [None]) else grid)"
  by pat_completeness auto
termination
  by (relation "measure (\<lambda>(i, f, g). case f of None \<Rightarrow> 0 | Some n \<Rightarrow> nat (n - i))")
     (auto simp: num_lt_def split: option.splits)

function push_days :: "int \<Rightarrow> number \<Rightarrow> number \<Rightarrow> int \<Rightarrow> number \<Rightarrow> Date option list \<Rightarrow> Date option list" where
  "push_days tza year month i daysInMonth grid =
     (if num_le (Some i) daysInMonth
      then push_days tza year month (i + 1) daysInMonth
             (grid @ [Some (new_Date tza year month (Some i) (Some 0) (Some 0) (Some 0) (Some 0))])
      else grid)"
  by pat_completeness auto
termination
  by (relation "measure (\<lambda>(tza, y, m, i, n, g). case n of None \<Rightarrow> 0 | Some k \<Rightarrow> nat (k + 1 - i))")
     (auto simp: num_le_def split: option.splits)

definition calendarGrid :: "int \<Rightarrow> Date \<Rightarrow> Date option list" where
  "calendarGrid tza currentDate =
     (let year = getFullYear tza currentDate;
          month = getMonth tza currentDate;
          firstDayOfMonth =
            getDay tza (new_Date tza year month (Some 1) (Some 0) (Some 0) (Some 0) (Some 0));
          daysInMonth =
            getDate tza (new_Date tza year (num_add month (Some 1)) (Some 0)
                           (Some 0) (Some 0) (Some 0) (Some 0));
          grid = push_nulls 0 firstDayOfMonth []
      in push_days tza year month 1 daysInMonth grid)"

text \<open>The state \<open>advancedFilters\<close>; each field is \<open>'all'\<close> or a value to match.\<close>

record AdvancedFilters =
  f_authStatus :: string
  f_surgeryStatus :: string
  f_hospitalId :: string
  f_insuranceId :: string

definition filteredSurgeries :: "Surgery list \<Rightarrow> string \<Rightarrow> AdvancedFilters \<Rightarrow> Surgery list" where
  "filteredSurgeries surgeries doctorFilter advancedFilters =
     filter (\<lambda>s.
       if doctorFilter \<noteq> ''all'' \<and> mainSurgeonId s \<noteq> doctorFilter
          \<and> doctorFilter \<notin> set (participatingIds s) then False
       else if f_authStatus advancedFilters \<noteq> ''all''
               \<and> authStatus s \<noteq> f_authStatus advancedFilters then False
       else if f_surgeryStatus advancedFilters \<noteq> ''all''
               \<and> surgeryStatus s \<noteq> f_surgeryStatus advancedFilters then False
       else if f_hospitalId advancedFilters \<noteq> ''all''
               \<and> hospitalId s \<noteq> f_hospitalId advancedFilters then False
       else if f_insuranceId advancedFilters \<noteq> ''all''
               \<and> insuranceId s \<noteq> f_insuranceId advancedFilters then False
       else True) surgeries"

section \<open>ReportsView\<close>

record ReportFilters =
  startDate :: string
  endDate :: string
  doctorId :: string

text \<open>
  \<open>filteredSurgeries\<close> of \<open>ReportsView\<close>. A non-empty string is truthy. The two date
  fields are the values of \<open><input type="date">\<close>, that is \<open>YYYY-MM-DD\<close> or empty.
\<close>

definition report_filteredSurgeries :: "int \<Rightarrow> Surgery list \<Rightarrow> ReportFilters \<Rightarrow> Surgery list" where
  "report_filteredSurgeries tza surgeries filters =
     filter (\<lambda>s.
       let surgeryDate = new_Date_string tza (dateTime s)
       in if startDate filters \<noteq> [] \<and> num_lt surgeryDate (new_Date_string tza (startDate filters))
          then False
          else if endDate filters \<noteq> []
                  \<and> (let endDate0 = new_Date_string tza (endDate filters);
                          endDate1 = setHours tza endDate0 23 59 59 999
                      in num_gt surgeryDate endDate1)
          then False
          else if doctorId filters \<noteq> ''all''
                  \<and> doctorId filters \<notin> set (mainSurgeonId s # participatingIds s)
          then False
          else True) surgeries"

section \<open>DashboardView\<close>

record Dashboard =
  surgeriesToday :: "Surgery list"
  pendingAuthCount :: nat
  monthRevenue :: double

text \<open>\<open>v || 0\<close>: the value \<open>v\<close> when it is truthy, the number \<open>0\<close> otherwise.\<close>

definition or0 :: "double option \<Rightarrow> double" where
  "or0 v = (case v of None \<Rightarrow> Finite 0 | Some x \<Rightarrow> if ToBoolean x then x else Finite 0)"

text \<open>
  The memo of \<open>DashboardView\<close>; \<open>now\<close> is the time value of \<open>new Date()\<close>, the clock at the
  call. \<open>reduce\<close> is a left fold, from the number \<open>0\<close>, and its \<open>+\<close> is the addition of doubles.
\<close>

definition dashboard :: "int \<Rightarrow> int \<Rightarrow> Surgery list \<Rightarrow> Dashboard" where
  "dashboard tza now surgeries =
     (let today = setHours tza (Some now) 0 0 0 0;
          currentMonth = getMonth tza today;
          currentYear = getFullYear tza today;
          todaysSurgeries = filter (\<lambda>s.
            let sDate = new_Date_string tza (dateTime s)
            in num_eq (getFullYear tza sDate) currentYear
               \<and> num_eq (getMonth tza sDate) currentMonth
               \<and> num_eq (getDate tza sDate) (getDate tza today)) surgeries;
          pending = length (filter (\<lambda>s. authStatus s = ''Pendente'') surgeries);
          revenue = foldl (\<lambda>acc s. dadd acc (or0 (totalValue s))) (Finite 0)
            (filter (\<lambda>s.
               let sDate = new_Date_string tza (dateTime s)
               in surgeryStatus s = ''Realizada''
                  \<and> num_eq (getMonth tza sDate) currentMonth
                  \<and> num_eq (getFullYear tza sDate) currentYear) surgeries)
      in \<lparr> surgeriesToday = todaysSurgeries, pendingAuthCount = pending, monthRevenue = revenue \<rparr>)"


section \<open>App: state, remote store, handlers\<close>

text \<open>
  The component state of \<open>App\<close> that the handlers read or write, as one record. Two
  fields are not state of the component but its trace: \<open>toasts\<close> lists the calls of
  \<open>addToast\<close> (message and kind) in order, \<open>requests\<close> the calls sent to the remote store.
  A session is represented by the identifier of its user.
\<close>

type_synonym Session = string

datatype Request =
    SelectProfile string
  | SelectAll
  | SignOut
  | Upsert SurgeryData "string option"
  | UpdateDateTime string string
  | InsertRow string string
  | DeleteRow string string

record AppState =
  session :: "Session option"
  loading :: bool
  doctors :: "Doctor list"
  userProfiles :: "UserProfile list"
  surgeries :: "Surgery list"
  hospitals :: "Hospital list"
  insurancePlans :: "InsurancePlan list"
  loggedInProfile :: "UserProfile option"
  isModalOpen :: bool
  surgeryToEdit :: "Surgery option"
  toasts :: "(string \<times> ToastType) list"
  requests :: "Request list"

definition addToast :: "string \<Rightarrow> ToastType \<Rightarrow> AppState \<Rightarrow> AppState" where
  "addToast message type st = st\<lparr>toasts := toasts st @ [(message, type)]\<rparr>"

definition send :: "Request \<Rightarrow> AppState \<Rightarrow> AppState" where
  "send r st = st\<lparr>requests := requests st @ [r]\<rparr>"

text \<open>
  The remote store is outside the program: what it answers is an input of each handler. An
  answer is the pair \<open>{data, error}\<close> of the client library; of an error only its \<open>message\<close>
  is read. A row of \<open>user_profiles\<close> comes with its joined doctor, of which the name is read
  (\<open>None\<close>: the join is \<open>null\<close>).
\<close>

record 'a Response =
  data :: "'a option"
  error :: "string option"

record ProfileRow =
  row_id :: string
  row_doctor_id :: string
  row_is_admin :: "bool option"
  row_doctor :: "string option"

record FetchResponses =
  profileRes :: "ProfileRow Response"
  doctorsRes :: "Doctor list Response"
  surgeriesRes :: "Surgery list Response"
  hospitalsRes :: "Hospital list Response"
  plansRes :: "InsurancePlan list Response"
  profilesRes :: "ProfileRow list Response"

text \<open>
  \<open>{...p, name: p.doctor.name}\<close>; reading \<open>name\<close> of \<open>null\<close> throws a \<open>TypeError\<close>, whose
  message is the engine's (the text of V8 is used).
\<close>

definition typeError_name :: string where
  "typeError_name = ''Cannot read properties of null (reading 'name')''"

definition typeError_map :: string where
  "typeError_map = ''Cannot read properties of null (reading 'map')''"

definition with_name :: "ProfileRow \<Rightarrow> string + UserProfile" where
  "with_name p =
     (case row_doctor p of
        None \<Rightarrow> Inl typeError_name
      | Some n \<Rightarrow> Inr \<lparr> profile_id = row_id p, doctor_id_of = row_doctor_id p,
                        is_admin = row_is_admin p, profile_name = Some n \<rparr>)"

fun map_with_name :: "ProfileRow list \<Rightarrow> string + UserProfile list" where
  "map_with_name [] = Inr []"
| "map_with_name (p # ps) =
     (case with_name p of
        Inl e \<Rightarrow> Inl e
      | Inr u \<Rightarrow> (case map_with_name ps of Inl e \<Rightarrow> Inl e | Inr us \<Rightarrow> Inr (u # us)))"

definition or_empty :: "'a list option \<Rightarrow> 'a list" where
  "or_empty d = (case d of None \<Rightarrow> [] | Some xs \<Rightarrow> xs)"

definition msg_no_profile :: string where
  "msg_no_profile = ''Perfil do usu'' @ [CHR 0xE1] @ ''rio n'' @ [CHR 0xE3]
                    @ ''o encontrado. Realizando logout.''"

text \<open>
  The \<open>try\<close> block of \<open>fetchData\<close>: the state it has reached, and the message of the error
  it threw, if it threw. Each \<open>set...\<close> call before a \<open>throw\<close> has taken effect.
\<close>

definition fetchData_try :: "AppState \<Rightarrow> Session \<Rightarrow> FetchResponses \<Rightarrow> string option \<times> AppState" where
  "fetchData_try st currentSession r =
     (let st1 = send (SelectProfile currentSession) st
      in case (error (profileRes r), data (profileRes r)) of
           (Some e, _) \<Rightarrow> (Some msg_no_profile, send SignOut st1)
         | (None, None) \<Rightarrow> (Some msg_no_profile, send SignOut st1)
         | (None, Some profile) \<Rightarrow>
             (case with_name profile of
                Inl e \<Rightarrow> (Some e, st1)
              | Inr loggedInUser \<Rightarrow>
                  (let st2 = send SelectAll (st1\<lparr>loggedInProfile := Some loggedInUser\<rparr>)
                   in case error (doctorsRes r) of
                        Some e \<Rightarrow> (Some e, st2)
                      | None \<Rightarrow>
                  (let st3 = st2\<lparr>doctors := or_empty (data (doctorsRes r))\<rparr>
                   in case error (surgeriesRes r) of
                        Some e \<Rightarrow> (Some e, st3)
                      | None \<Rightarrow>
                  (let st4 = st3\<lparr>surgeries := or_empty (data (surgeriesRes r))\<rparr>
                   in case error (hospitalsRes r) of
                        Some e \<Rightarrow> (Some e, st4)
                      | None \<Rightarrow>
                  (let st5 = st4\<lparr>hospitals := or_empty (data (hospitalsRes r))\<rparr>
                   in case error (plansRes r) of
                        Some e \<Rightarrow> (Some e, st5)
                      | None \<Rightarrow>
                  (let st6 = st5\<lparr>insurancePlans := or_empty (data (plansRes r))\<rparr>
                   in case error (profilesRes r) of
                        Some e \<Rightarrow> (Some e, st6)
                      | None \<Rightarrow>
                  (case data (profilesRes r) of
                     None \<Rightarrow> (Some typeError_map, st6)
                   | Some rows \<Rightarrow>
                       (case map_with_name rows of
                          Inl e \<Rightarrow> (Some e, st6)
                        | Inr allUsers \<Rightarrow> (None, st6\<lparr>userProfiles := allUsers\<rparr>))))))))))"

definition fetchData :: "AppState \<Rightarrow> Session \<Rightarrow> FetchResponses \<Rightarrow> AppState" where
  "fetchData st currentSession r =
     (let (thrown, st1) = fetchData_try (st\<lparr>loading := True\<rparr>) currentSession r;
          st2 = (case thrown of
                   None \<Rightarrow> st1
                 | Some message \<Rightarrow>
                     (addToast (''Erro ao carregar dados: '' @ message) ToastError st1)
                       \<lparr>loggedInProfile := None, session := None\<rparr>)
      in st2\<lparr>loading := False\<rparr>)"

text \<open>\<open>if (session) await fetchData(session)\<close>, the tail of every handler that wrote.\<close>

definition reload :: "AppState \<Rightarrow> FetchResponses \<Rightarrow> AppState" where
  "reload st r = (case session st of None \<Rightarrow> st | Some s \<Rightarrow> fetchData st s r)"






text \<open>
  The timestamp that \<open>handleSurgeryDrop\<close> computes for a surgery and the date of the cell it
  was dropped on: the constructor is called with five arguments, seconds and milliseconds
  default to 0.
\<close>

definition newDateTime :: "int \<Rightarrow> Surgery \<Rightarrow> Date \<Rightarrow> js_error + string" where
  "newDateTime tza surgery newDate =
     (let oldDateTime = new_Date_string tza (dateTime surgery)
      in toISOString
           (new_Date tza (getFullYear tza newDate) (getMonth tza newDate) (getDate tza newDate)
              (getHours tza oldDateTime) (getMinutes tza oldDateTime) (Some 0) (Some 0)))"

text \<open>
  \<open>handleSurgeryDrop\<close>. The \<open>RangeError\<close> of \<open>toISOString\<close> is not caught: the handler ends
  there (\<open>Inl\<close>), before any request.
\<close>

definition handleSurgeryDrop ::
  "int \<Rightarrow> AppState \<Rightarrow> string \<Rightarrow> Date \<Rightarrow> string option \<Rightarrow> FetchResponses \<Rightarrow> js_error + AppState" where
  "handleSurgeryDrop tza st surgeryId newDate updateError r =
     (case find (\<lambda>s. surgery_id s = surgeryId) (surgeries st) of
        None \<Rightarrow> Inr st
      | Some surgery \<Rightarrow>
          (case newDateTime tza surgery newDate of
             Inl e \<Rightarrow> Inl e
           | Inr ts \<Rightarrow>
               (let st1 = send (UpdateDateTime surgeryId ts) st
                in case updateError of
                     Some message \<Rightarrow>
                       Inr (addToast (''Erro ao mover cirurgia: '' @ message) ToastError st1)
                   | None \<Rightarrow>
                       Inr (reload (addToast ''Cirurgia movida com sucesso!'' ToastSuccess st1) r))))"







text \<open>\<open>searchedSurgeries\<close>: the header search over the patient names.\<close>

definition searchedSurgeries :: "string \<Rightarrow> Surgery list \<Rightarrow> Surgery list" where
  "searchedSurgeries searchQuery all_surgeries =
     (if trim searchQuery = [] then []
      else filter (\<lambda>s. includes_str (toLowerCase (patientName s)) (toLowerCase searchQuery))
             all_surgeries)"


section \<open>Notions of the specification, and example data\<close>

text \<open>
  The specification speaks of a "case-insensitive substring". Following its words:
  \<open>q\<close> is a case-insensitive substring of \<open>name\<close> when some contiguous segment of \<open>name\<close>
  has the length of \<open>q\<close> and agrees with it position by position up to the case of the
  letters.
\<close>

definition ci_substring :: "string \<Rightarrow> string \<Rightarrow> bool" where
  "ci_substring q name =
     (\<exists>before seg after. name = before @ seg @ after \<and> length seg = length q
        \<and> (\<forall>i < length q. lower_char (seg ! i) = lower_char (q ! i)))"

text \<open>
  The five collections in memory, and the mutating operations of the controller as one
  type, so that a statement can range over "every mutating operation": \<open>perform\<close> only
  dispatches to the handler of the source. \<open>writeError\<close> is the \<open>error\<close> of the store's answer
  to the write of the operation.
\<close>

definition collections ::
  "AppState \<Rightarrow> Doctor list \<times> Surgery list \<times> Hospital list \<times> InsurancePlan list \<times> UserProfile list" where
  "collections st = (doctors st, surgeries st, hospitals st, insurancePlans st, userProfiles st)"




text \<open>
  The local time that \<open>handleSurgeryDrop\<close> hands to the \<open>Date\<close> constructor, for a surgery
  at time value \<open>t0\<close> and a target date at time value \<open>t1\<close>: the calendar day of the target
  with the hour and minute of the surgery.
\<close>

definition dropped_local :: "int \<Rightarrow> int \<Rightarrow> int \<Rightarrow> int" where
  "dropped_local tza t0 t1 =
     MakeDate (MakeDay (MakeFullYear (YearFromTime (LocalTime tza t1)))
                 (MonthFromTime (LocalTime tza t1)) (DateFromTime (LocalTime tza t1)))
       (MakeTime (HourFromTime (LocalTime tza t0)) (MinFromTime (LocalTime tza t0)) 0 0)"

text \<open>
  The calendar of the specification: the Gregorian leap-year rule and the number of days of
  month \<open>m\<close> (0 = January, as \<open>getMonth\<close> counts) of year \<open>y\<close>.
\<close>

definition leap_year :: "int \<Rightarrow> bool" where
  "leap_year y = (y mod 4 = 0 \<and> (y mod 100 \<noteq> 0 \<or> y mod 400 = 0))"

definition daysInMonth :: "int \<Rightarrow> int \<Rightarrow> int" where
  "daysInMonth y m =
     (if m = 1 then (if leap_year y then 29 else 28)
      else if m = 3 \<or> m = 5 \<or> m = 8 \<or> m = 10 then 30 else 31)"

text \<open>Local midnight of day \<open>i\<close> of month \<open>m\<close> (0 = January) of year \<open>y\<close>, as a time value.\<close>

definition local_midnight :: "int \<Rightarrow> int \<Rightarrow> int \<Rightarrow> int \<Rightarrow> int" where
  "local_midnight tza y m i = UTC tza (MakeDate (MakeDay y m i) 0)"

text \<open>
  "The date of the surgery falls in the calendar month and year of \<open>now\<close>", in local time. A
  surgery whose \<open>dateTime\<close> is no date falls in no month.
\<close>

definition falls_in_month_of :: "int \<Rightarrow> int \<Rightarrow> Surgery \<Rightarrow> bool" where
  "falls_in_month_of tza now s =
     (case new_Date_string tza (dateTime s) of
        None \<Rightarrow> False
      | Some t \<Rightarrow>
          YearFromTime (LocalTime tza t) = YearFromTime (LocalTime tza now)
          \<and> MonthFromTime (LocalTime tza t) = MonthFromTime (LocalTime tza now))"

text \<open>
  The sum of a list of numbers in double arithmetic, added one by one from 0 in the order of
  the list; and its sum in exact arithmetic, which exists when every number is finite.
\<close>

definition double_sum :: "double list \<Rightarrow> double" where
  "double_sum ds = foldl dadd (Finite 0) ds"

fun rat_of_double :: "double \<Rightarrow> rat option" where
  "rat_of_double (Finite x) = Some x"
| "rat_of_double NegZero = Some 0"
| "rat_of_double _ = None"

fun exact_sum :: "double list \<Rightarrow> rat option" where
  "exact_sum [] = Some 0"
| "exact_sum (d # ds) = do { x \<leftarrow> rat_of_double d; y \<leftarrow> exact_sum ds; Some (x + y) }"

text \<open>
  Example records, for the concrete instances of the theorems below. The value of an example
  surgery is given as the decimal literal of the number, which denotes the nearest double.
\<close>

definition example_surgery ::
  "string \<Rightarrow> string \<Rightarrow> string \<Rightarrow> string \<Rightarrow> string \<Rightarrow> string \<Rightarrow> rat \<Rightarrow> Surgery" where
  "example_surgery ident patient date_time hospital auth status val =
     \<lparr> patientName = patient, mainSurgeonId = ''d1'', participatingIds = [''d2''],
       dateTime = date_time, hospitalId = hospital, insuranceId = ''P1'', authStatus = auth,
       surgeryStatus = status, totalValue = Some (round_double val), materials = [], surgery_notes = [],
       surgery_id = ident \<rparr>"

definition example_state :: AppState where
  "example_state =
     \<lparr> session = Some ''u1'', loading = False,
       doctors = [\<lparr> doctor_id = ''d1'', doctor_name = ''Dr. A'', color = ''#3b82f6'' \<rparr>],
       userProfiles = [],
       surgeries = [example_surgery ''s1'' ''Ana Souza'' ''2024-03-15T10:00'' ''H1''
                      ''Liberado'' ''Agendada'' 100],
       hospitals = [\<lparr> hospital_id = ''H1'', hospital_name = ''Central'' \<rparr>],
       insurancePlans = [\<lparr> plan_id = ''P1'', plan_name = ''Plano'' \<rparr>],
       loggedInProfile = None, isModalOpen = False, surgeryToEdit = None,
       toasts = [], requests = [] \<rparr>"

text \<open>
  Answers of the remote store to a reload in which the read of \<open>doctors\<close> succeeds (with a
  second doctor) and the read of \<open>surgeries\<close> fails.
\<close>

definition example_responses :: FetchResponses where
  "example_responses =
     \<lparr> profileRes = \<lparr> data = Some \<lparr> row_id = ''u1'', row_doctor_id = ''d1'',
                                     row_is_admin = Some True, row_doctor = Some ''Dr. A'' \<rparr>,
                      error = None \<rparr>,
       doctorsRes = \<lparr> data = Some [\<lparr> doctor_id = ''d1'', doctor_name = ''Dr. A'', color = ''#3b82f6'' \<rparr>,
                                    \<lparr> doctor_id = ''d2'', doctor_name = ''Dr. B'', color = ''#10b981'' \<rparr>],
                      error = None \<rparr>,
       surgeriesRes = \<lparr> data = None, error = Some ''timeout'' \<rparr>,
       hospitalsRes = \<lparr> data = Some [], error = None \<rparr>,
       plansRes = \<lparr> data = Some [], error = None \<rparr>,
       profilesRes = \<lparr> data = Some [], error = None \<rparr> \<rparr>"

section \<open>Properties of the runtime model\<close>

subsection \<open>Years and days\<close>

lemma div_step:
  fixes a n :: int
  assumes "0 < n"
  shows "(a + 1) div n = a div n + (if (a + 1) mod n = 0 then 1 else 0)"
proof -
  have r: "0 \<le> a mod n" "a mod n < n" using assms by simp_all
  have s: "a + 1 = n * (a div n) + (a mod n + 1)" by simp
  show ?thesis
  proof (cases "a mod n + 1 = n")
    case True
    have "n * (a div n) + n = n * (a div n + 1) + 0" by (simp only: distrib_left mult_1_right add_0_right)
    with s True have a: "a + 1 = n * (a div n + 1) + 0" by (simp only:)
    have "(a + 1) div n = a div n + 1"
      by (rule int_div_pos_eq [OF a]) (use assms in simp_all)
    moreover have "(a + 1) mod n = 0"
      by (rule int_mod_pos_eq [OF a]) (use assms in simp_all)
    ultimately show ?thesis by simp
  next
    case False
    have lt: "a mod n + 1 < n" using False r by linarith
    have p: "0 \<le> a mod n + 1" using r by linarith
    have "(a + 1) div n = a div n"
      by (rule int_div_pos_eq [OF s p lt])
    moreover have "(a + 1) mod n = a mod n + 1"
      by (rule int_mod_pos_eq [OF s p lt])
    ultimately show ?thesis using r by simp
  qed
qed

lemma div_lo: "0 < n \<Longrightarrow> n * (a div n) \<le> a" for a n :: int
  by (metis mult_div_mod_eq pos_mod_sign le_add_same_cancel1)

lemma div_hi: "0 < n \<Longrightarrow> a < n * (a div n) + n" for a n :: int
  by (metis mult_div_mod_eq pos_mod_bound add_less_cancel_left)

lemma leap_count:
  fixes p4 p100 p400 :: bool
  assumes "p400 \<Longrightarrow> p100" "p100 \<Longrightarrow> p4"
  shows "(if \<not> p4 then 365 else if \<not> p100 then 366 else if \<not> p400 then 365 else (366::int))
         = 365 + (if p4 then 1 else 0) - (if p100 then 1 else 0) + (if p400 then 1 else 0)"
  using assms by (cases p4; cases p100; cases p400) simp_all

lemma DaysInYear_alt:
  "DaysInYear y = 365 + (if y mod 4 = 0 then 1 else 0) - (if y mod 100 = 0 then 1 else 0)
                  + (if y mod 400 = 0 then 1 else 0)"
proof -
  have i1: "y mod 400 = 0 \<Longrightarrow> y mod 100 = 0" by auto
  have i2: "y mod 100 = 0 \<Longrightarrow> y mod 4 = 0" by auto
  show ?thesis unfolding DaysInYear_def by (rule leap_count [OF i1 i2])
qed

lemma DayFromYear_Suc: "DayFromYear (y + 1) = DayFromYear y + DaysInYear y"
proof -
  have m4: "(y - 1968) mod 4 = y mod 4" using mod_mult_self1 [of y "- 492" 4] by simp
  have m100: "(y - 1900) mod 100 = y mod 100" using mod_mult_self1 [of y "- 19" 100] by simp
  have m400: "(y - 1600) mod 400 = y mod 400" using mod_mult_self1 [of y "- 4" 400] by simp
  have e4: "(y + 1 - 1969) div 4 = (y - 1969) div 4 + (if y mod 4 = 0 then 1 else 0)"
    using div_step [of 4 "y - 1969"] m4 by (simp add: algebra_simps)
  have e100: "(y + 1 - 1901) div 100 = (y - 1901) div 100 + (if y mod 100 = 0 then 1 else 0)"
    using div_step [of 100 "y - 1901"] m100 by (simp add: algebra_simps)
  have e400: "(y + 1 - 1601) div 400 = (y - 1601) div 400 + (if y mod 400 = 0 then 1 else 0)"
    using div_step [of 400 "y - 1601"] m400 by (simp add: algebra_simps)
  define a where "a = (y - 1969) div 4"
  define b where "b = (y - 1901) div 100"
  define c where "c = (y - 1601) div 400"
  define i4 :: int where "i4 = (if y mod 4 = 0 then 1 else 0)"
  define i100 :: int where "i100 = (if y mod 100 = 0 then 1 else 0)"
  define i400 :: int where "i400 = (if y mod 400 = 0 then 1 else 0)"
  have "DayFromYear (y + 1) = 365 * (y + 1 - 1970) + (a + i4) - (b + i100) + (c + i400)"
    unfolding DayFromYear_def e4 e100 e400 a_def b_def c_def i4_def i100_def i400_def ..
  moreover have "DayFromYear y = 365 * (y - 1970) + a - b + c"
    unfolding DayFromYear_def a_def b_def c_def ..
  moreover have "DaysInYear y = 365 + i4 - i100 + i400"
    unfolding i4_def i100_def i400_def by (rule DaysInYear_alt)
  ultimately show ?thesis by (simp only: algebra_simps)
qed

lemma DaysInYear_cases: "DaysInYear y = 365 \<or> DaysInYear y = 366"
  by (simp add: DaysInYear_def)

lemma year_estimate_lower:
  fixes a b c d q :: int
  assumes "146097 * q \<le> d * 400" "4 * a \<le> q" "q + 68 < 100 * b + 100" "400 * c \<le> q + 368"
  shows "365 * q - 365 + a - b + c \<le> d"
  using assms by linarith

lemma year_estimate_upper:
  fixes a b c d q :: int
  assumes "d * 400 < 146097 * q + 146097" "q + 3 < 4 * a + 4" "100 * b \<le> q + 71"
    "q + 371 < 400 * c + 400"
  shows "d < 365 * q + 730 + a - b + c"
  using assms by linarith

lemma DayFromYear_lower: "DayFromYear (1970 + (d * 400) div 146097 - 1) \<le> d"
proof -
  define q where "q = (d * 400) div 146097"
  define a where "a = q div 4"
  define b where "b = (q + 68) div 100"
  define c where "c = (q + 368) div 400"
  have d: "146097 * q \<le> d * 400" unfolding q_def by (rule div_lo) simp
  have 1: "4 * a \<le> q" unfolding a_def by (rule div_lo) simp
  have 2: "q + 68 < 100 * b + 100" unfolding b_def by (rule div_hi) simp
  have 3: "400 * c \<le> q + 368" unfolding c_def by (rule div_lo) simp
  have "DayFromYear (1970 + q - 1) = 365 * q - 365 + a - b + c"
    by (simp add: DayFromYear_def a_def b_def c_def add.commute)
  then show ?thesis
    using year_estimate_lower [OF d 1 2 3] unfolding q_def by simp
qed

lemma DayFromYear_upper: "d < DayFromYear (1970 + (d * 400) div 146097 + 2)"
proof -
  define q where "q = (d * 400) div 146097"
  define a where "a = (q + 3) div 4"
  define b where "b = (q + 71) div 100"
  define c where "c = (q + 371) div 400"
  have d: "d * 400 < 146097 * q + 146097" unfolding q_def by (rule div_hi) simp
  have 1: "q + 3 < 4 * a + 4" unfolding a_def by (rule div_hi) simp
  have 2: "100 * b \<le> q + 71" unfolding b_def by (rule div_lo) simp
  have 3: "q + 371 < 400 * c + 400" unfolding c_def by (rule div_hi) simp
  have "DayFromYear (1970 + q + 2) = 365 * q + 730 + a - b + c"
    by (simp add: DayFromYear_def a_def b_def c_def add.commute)
  then show ?thesis
    using year_estimate_upper [OF d 1 2 3] unfolding q_def by simp
qed

text \<open>The characterisation of \<open>YearFromTime\<close>.\<close>

lemma YearFromTime_bounds:
  "DayFromYear (YearFromTime t) \<le> Day t \<and> Day t < DayFromYear (YearFromTime t + 1)"
proof -
  define d where "d = Day t"
  define y0 where "y0 = 1970 + (d * 400) div 146097"
  have lo: "DayFromYear (y0 - 1) \<le> d" unfolding y0_def by (rule DayFromYear_lower)
  have hi: "d < DayFromYear (y0 + 2)" unfolding y0_def by (rule DayFromYear_upper)
  have e1: "y0 - 1 + 1 = y0" and e2: "y0 + 1 + 1 = y0 + 2" by simp_all
  have Y: "YearFromTime t = (if DayFromYear (y0 + 1) \<le> d then y0 + 1
                             else if DayFromYear y0 \<le> d then y0 else y0 - 1)"
    by (simp add: YearFromTime_def Let_def d_def y0_def)
  show ?thesis unfolding Y d_def [symmetric]
    using lo hi by (simp add: e1 e2)
qed

lemma DayFromYear_mono_step: "DayFromYear y < DayFromYear (y + 1)"
  using DaysInYear_cases [of y] by (auto simp: DayFromYear_Suc)

lemma DayFromYear_mono_nat: "DayFromYear y \<le> DayFromYear (y + int n)"
proof (induction n)
  case 0
  then show ?case by simp
next
  case (Suc n)
  have "DayFromYear (y + int n) < DayFromYear (y + int n + 1)" by (rule DayFromYear_mono_step)
  then have "DayFromYear (y + int n) < DayFromYear (y + int (Suc n))" by (simp add: ac_simps)
  with Suc show ?case by linarith
qed

lemma DayFromYear_mono: "y \<le> z \<Longrightarrow> DayFromYear y \<le> DayFromYear z"
  using DayFromYear_mono_nat [of y "nat (z - y)"] by simp

lemma YearFromTime_unique:
  assumes "DayFromYear y \<le> Day t" "Day t < DayFromYear (y + 1)"
  shows "YearFromTime t = y"
proof (rule ccontr)
  assume n: "YearFromTime t \<noteq> y"
  note b = YearFromTime_bounds [of t]
  show False
  proof (cases "YearFromTime t < y")
    case True
    then have "DayFromYear (YearFromTime t + 1) \<le> DayFromYear y"
      by (intro DayFromYear_mono) simp
    with b assms show False by linarith
  next
    case False
    with n have "DayFromYear (y + 1) \<le> DayFromYear (YearFromTime t)"
      by (intro DayFromYear_mono) simp
    with b assms show False by linarith
  qed
qed

lemma DayWithinYear_range: "0 \<le> DayWithinYear t \<and> DayWithinYear t < DaysInYear (YearFromTime t)"
  using YearFromTime_bounds [of t] by (simp add: DayWithinYear_def DayFromYear_Suc)


subsection \<open>Calendar fields of a time value\<close>

lemma InLeapYear_cases: "InLeapYear t = 0 \<or> InLeapYear t = 1"
  by (simp add: InLeapYear_def)

lemma DaysInYear_InLeapYear: "DaysInYear (YearFromTime t) = 365 + InLeapYear t"
  using DaysInYear_cases [of "YearFromTime t"] by (auto simp: InLeapYear_def)

lemma month_date_of_day:
  fixes d l :: int
  assumes "0 \<le> d" "d < 365 + l" "l = 0 \<or> l = 1"
  defines "m \<equiv> (if d < 31 then 0 else if d < 59 + l then 1 else if d < 90 + l then 2
         else if d < 120 + l then 3 else if d < 151 + l then 4 else if d < 181 + l then 5
         else if d < 212 + l then 6 else if d < 243 + l then 7 else if d < 273 + l then 8
         else if d < 304 + l then 9 else if d < 334 + l then 10 else (11::int))"
  defines "dt \<equiv> (if m = 0 then d + 1 else if m = 1 then d - 30 else if m = 2 then d - 58 - l
         else if m = 3 then d - 89 - l else if m = 4 then d - 119 - l
         else if m = 5 then d - 150 - l else if m = 6 then d - 180 - l
         else if m = 7 then d - 211 - l else if m = 8 then d - 242 - l
         else if m = 9 then d - 272 - l else if m = 10 then d - 303 - l else d - 333 - l)"
  shows "0 \<le> m \<and> m \<le> 11 \<and> 1 \<le> dt \<and> dt \<le> 31 \<and> d = DaysBeforeMonth l m + dt - 1"
  using assms(1-3) unfolding m_def dt_def DaysBeforeMonth_def by auto

lemma civil_fields:
  "0 \<le> MonthFromTime t \<and> MonthFromTime t \<le> 11 \<and> 1 \<le> DateFromTime t \<and> DateFromTime t \<le> 31
   \<and> DayWithinYear t = DaysBeforeMonth (InLeapYear t) (MonthFromTime t) + DateFromTime t - 1"
proof -
  have r: "0 \<le> DayWithinYear t" "DayWithinYear t < 365 + InLeapYear t"
    using DayWithinYear_range [of t] by (simp_all add: DaysInYear_InLeapYear)
  show ?thesis
    using month_date_of_day [OF r InLeapYear_cases]
    by (simp add: MonthFromTime_def DateFromTime_def Let_def)
qed

text \<open>From a time value to its calendar fields and back.\<close>

lemma MakeDay_civil: "MakeDay (YearFromTime t) (MonthFromTime t) (DateFromTime t) = Day t"
proof -
  note c = civil_fields [of t]
  have d: "MonthFromTime t div 12 = 0" and m: "MonthFromTime t mod 12 = MonthFromTime t"
    using c by simp_all
  have "MakeDay (YearFromTime t) (MonthFromTime t) (DateFromTime t)
          = DayFromYear (YearFromTime t)
            + DaysBeforeMonth (InLeapYear t) (MonthFromTime t) + DateFromTime t - 1"
    by (simp add: MakeDay_def d m InLeapYear_def Let_def)
  also have "\<dots> = DayFromYear (YearFromTime t) + DayWithinYear t" using c by simp
  also have "\<dots> = Day t" by (simp add: DayWithinYear_def)
  finally show ?thesis .
qed

lemma fields_depend_on_Day:
  assumes "Day a = Day b"
  shows "YearFromTime a = YearFromTime b" "MonthFromTime a = MonthFromTime b"
    "DateFromTime a = DateFromTime b" "WeekDay a = WeekDay b"
proof -
  show y: "YearFromTime a = YearFromTime b" using assms by (simp add: YearFromTime_def)
  have l: "InLeapYear a = InLeapYear b" by (simp add: InLeapYear_def y)
  have w: "DayWithinYear a = DayWithinYear b" by (simp add: DayWithinYear_def y assms)
  show m: "MonthFromTime a = MonthFromTime b" by (simp add: MonthFromTime_def l w)
  show "DateFromTime a = DateFromTime b" by (simp add: DateFromTime_def l w m)
  show "WeekDay a = WeekDay b" by (simp add: WeekDay_def assms)
qed

subsection \<open>Time within the day\<close>

lemma divmod_unique:
  fixes q r b :: int
  assumes "0 \<le> r" "r < b"
  shows "(q * b + r) div b = q" "(q * b + r) mod b = r"
proof -
  have e: "q * b + r = b * q + r" by simp
  show "(q * b + r) div b = q" by (rule int_div_pos_eq [OF e assms])
  show "(q * b + r) mod b = r" by (rule int_mod_pos_eq [OF e assms])
qed

lemma MakeTime_range:
  assumes "0 \<le> h" "h \<le> 23" "0 \<le> mi" "mi \<le> 59" "0 \<le> s" "s \<le> 59" "0 \<le> ms" "ms \<le> 999"
  shows "0 \<le> MakeTime h mi s ms \<and> MakeTime h mi s ms < msPerDay"
  using assms by (simp add: MakeTime_def msPerDay_def msPerHour_def msPerMinute_def msPerSecond_def)

lemma Day_MakeDate:
  assumes "0 \<le> tm" "tm < msPerDay"
  shows "Day (MakeDate d tm) = d"
  unfolding Day_def MakeDate_def by (rule divmod_unique(1) [OF assms])

lemma time_fields_MakeDate:
  assumes "0 \<le> h" "h \<le> 23" "0 \<le> mi" "mi \<le> 59" "0 \<le> s" "s \<le> 59" "0 \<le> ms" "ms \<le> 999"
  shows "HourFromTime (MakeDate d (MakeTime h mi s ms)) = h"
    and "MinFromTime (MakeDate d (MakeTime h mi s ms)) = mi"
    and "SecFromTime (MakeDate d (MakeTime h mi s ms)) = s"
    and "msFromTime (MakeDate d (MakeTime h mi s ms)) = ms"
proof -
  let ?t = "MakeDate d (MakeTime h mi s ms)"
  have eh: "?t = (d * 24 + h) * 3600000 + (mi * 60000 + s * 1000 + ms)"
    by (simp add: MakeDate_def MakeTime_def msPerDay_def msPerHour_def msPerMinute_def
          msPerSecond_def algebra_simps)
  have em: "?t = ((d * 24 + h) * 60 + mi) * 60000 + (s * 1000 + ms)"
    by (simp add: eh algebra_simps)
  have es: "?t = (((d * 24 + h) * 60 + mi) * 60 + s) * 1000 + ms"
    by (simp add: eh algebra_simps)
  have "?t div 3600000 = d * 24 + h"
    unfolding eh by (rule divmod_unique(1)) (use assms in linarith)+
  moreover have "(d * 24 + h) mod 24 = h" by (rule divmod_unique(2)) (use assms in linarith)+
  ultimately show "HourFromTime ?t = h" by (simp only: HourFromTime_def msPerHour_def)
  have "?t div 60000 = (d * 24 + h) * 60 + mi"
    unfolding em by (rule divmod_unique(1)) (use assms in linarith)+
  moreover have "((d * 24 + h) * 60 + mi) mod 60 = mi"
    by (rule divmod_unique(2)) (use assms in linarith)+
  ultimately show "MinFromTime ?t = mi" by (simp only: MinFromTime_def msPerMinute_def)
  have "?t div 1000 = ((d * 24 + h) * 60 + mi) * 60 + s"
    unfolding es by (rule divmod_unique(1)) (use assms in linarith)+
  moreover have "(((d * 24 + h) * 60 + mi) * 60 + s) mod 60 = s"
    by (rule divmod_unique(2)) (use assms in linarith)+
  ultimately show "SecFromTime ?t = s" by (simp only: SecFromTime_def msPerSecond_def)
  show "msFromTime ?t = ms"
    unfolding es msFromTime_def msPerSecond_def
    by (rule divmod_unique(2)) (use assms in linarith)+
qed

lemma time_field_ranges:
  "0 \<le> HourFromTime t \<and> HourFromTime t \<le> 23 \<and> 0 \<le> MinFromTime t \<and> MinFromTime t \<le> 59
   \<and> 0 \<le> SecFromTime t \<and> SecFromTime t \<le> 59 \<and> 0 \<le> msFromTime t \<and> msFromTime t \<le> 999"
proof -
  have "\<And>x::int. 0 \<le> x mod 24 \<and> x mod 24 \<le> 23" by (simp add: zle_diff1_eq [symmetric] del: zle_diff1_eq)
  moreover have "\<And>x::int. 0 \<le> x mod 60 \<and> x mod 60 \<le> 59" by (simp add: zle_diff1_eq [symmetric] del: zle_diff1_eq)
  moreover have "\<And>x::int. 0 \<le> x mod 1000 \<and> x mod 1000 \<le> 999" by (simp add: zle_diff1_eq [symmetric] del: zle_diff1_eq)
  ultimately show ?thesis
    by (simp only: HourFromTime_def MinFromTime_def SecFromTime_def msFromTime_def msPerSecond_def)
qed

lemma time_decompose:
  "MakeDate (Day t) (MakeTime (HourFromTime t) (MinFromTime t) (SecFromTime t) (msFromTime t)) = t"
proof -
  have a: "t div 1000 div 60 = t div 60000" by (simp add: zdiv_zmult2_eq [symmetric])
  have b: "t div 60000 div 60 = t div 3600000" by (simp add: zdiv_zmult2_eq [symmetric])
  have c: "t div 3600000 div 24 = t div 86400000" by (simp add: zdiv_zmult2_eq [symmetric])
  have 1: "t = 1000 * (t div 1000) + t mod 1000" by simp
  have 2: "t div 1000 = 60 * (t div 60000) + (t div 1000) mod 60"
    using mult_div_mod_eq [of 60 "t div 1000"] a by simp
  have 3: "t div 60000 = 60 * (t div 3600000) + (t div 60000) mod 60"
    using mult_div_mod_eq [of 60 "t div 60000"] b by simp
  have 4: "t div 3600000 = 24 * (t div 86400000) + (t div 3600000) mod 24"
    using mult_div_mod_eq [of 24 "t div 3600000"] c by simp
  define x1 where "x1 = t div 1000"
  define x2 where "x2 = t div 60000"
  define x3 where "x3 = t div 3600000"
  define x4 where "x4 = t div 86400000"
  define r1 where "r1 = t mod 1000"
  define r2 where "r2 = x1 mod 60"
  define r3 where "r3 = x2 mod 60"
  define r4 where "r4 = x3 mod 24"
  have "t = 1000 * x1 + r1" "x1 = 60 * x2 + r2" "x2 = 60 * x3 + r3" "x3 = 24 * x4 + r4"
    using 1 2 3 4 unfolding x1_def x2_def x3_def x4_def r1_def r2_def r3_def r4_def by simp_all
  then have "x4 * 86400000 + (r4 * 3600000 + r3 * 60000 + r2 * 1000 + r1) = t" by linarith
  then show ?thesis
    unfolding MakeDate_def MakeTime_def Day_def HourFromTime_def MinFromTime_def SecFromTime_def
      msFromTime_def msPerDay_def msPerHour_def msPerMinute_def msPerSecond_def
      x1_def x2_def x3_def x4_def r1_def r2_def r3_def r4_def .
qed

subsection \<open>Decimal fields\<close>

lemma length_pad [simp]: "length (pad k n) = k"
  by (induction k arbitrary: n) simp_all

lemma is_digit_digit_char: "0 \<le> m \<Longrightarrow> m \<le> 9 \<Longrightarrow> is_digit (digit_char m)"
  by (simp add: is_digit_def digit_char_def)

lemma digit_val_digit_char: "0 \<le> m \<Longrightarrow> m \<le> 9 \<Longrightarrow> digit_val (digit_char m) = m"
  by (simp add: digit_val_def digit_char_def)

lemma mod10_range: "0 \<le> (n::int) mod 10 \<and> n mod 10 \<le> 9"
  by (simp add: zle_diff1_eq [symmetric] del: zle_diff1_eq)

lemma pad_digits: "list_all is_digit (pad k n)"
  by (induction k arbitrary: n) (simp_all add: is_digit_digit_char mod10_range)

lemma pad_value:
  "0 \<le> n \<Longrightarrow> n < 10 ^ k \<Longrightarrow> foldl (\<lambda>a c. 10 * a + digit_val c) 0 (pad k n) = n"
proof (induction k arbitrary: n)
  case 0
  then show ?case by simp
next
  case (Suc k)
  have "0 \<le> n div 10" using Suc.prems by simp
  moreover have "n div 10 < 10 ^ k" using Suc.prems by simp
  ultimately have "foldl (\<lambda>a c. 10 * a + digit_val c) 0 (pad k (n div 10)) = n div 10"
    by (rule Suc.IH)
  then show ?case by (simp add: digit_val_digit_char mod10_range)
qed

lemma read_digits_pad:
  assumes "0 < k" "0 \<le> n" "n < 10 ^ k"
  shows "read_digits (pad k n) = Some n"
proof -
  have "pad k n \<noteq> []" using assms(1) by (metis length_pad length_0_conv less_numeral_extra(3))
  then show ?thesis by (simp add: read_digits_def pad_digits pad_value assms)
qed

lemma field_pad:
  assumes "0 < k" "0 \<le> n" "n < 10 ^ k"
  shows "field k (pad k n @ rest) = Some (n, rest)"
  by (simp add: field_def read_digits_pad assms)

lemma pad_not_sign:
  assumes "0 < k"
  shows "\<exists>c r. pad k n @ rest = c # r \<and> c \<noteq> CHR ''+'' \<and> c \<noteq> CHR ''-''"
proof -
  obtain c r where e: "pad k n = c # r"
    using assms by (metis length_pad length_0_conv less_numeral_extra(3) list.exhaust)
  have "list_all is_digit (c # r)" using pad_digits [of k n] e by simp
  then have "is_digit c" by simp
  then have "c \<noteq> CHR ''+'' \<and> c \<noteq> CHR ''-''" by (auto simp: is_digit_def)
  with e show ?thesis by simp
qed

lemma parse_year_year_string:
  assumes "- 999999 \<le> y" "y \<le> 999999"
  shows "parse_year (year_string y @ rest) = Some (y, rest)"
proof (cases "0 \<le> y \<and> y \<le> 9999")
  case True
  obtain c r where e: "pad 4 y @ rest = c # r" and c: "c \<noteq> CHR ''+''" "c \<noteq> CHR ''-''"
    using pad_not_sign [of 4 y rest] by auto
  have f: "field 4 (pad 4 y @ rest) = Some (y, rest)"
    by (rule field_pad) (use True in simp_all)
  have "parse_year (pad 4 y @ rest) = field 4 (pad 4 y @ rest)"
    unfolding parse_year_def e using c by simp
  then show ?thesis using True f by (simp add: year_string_def)
next
  case False
  show ?thesis
  proof (cases "y < 0")
    case True
    have f: "field 6 (pad 6 \<bar>y\<bar> @ rest) = Some (\<bar>y\<bar>, rest)"
      by (rule field_pad) (use assms in simp_all)
    show ?thesis using True f by (simp add: year_string_def parse_year_def)
  next
    case F: False
    have f: "field 6 (pad 6 \<bar>y\<bar> @ rest) = Some (\<bar>y\<bar>, rest)"
      by (rule field_pad) (use assms in simp_all)
    show ?thesis using False F f by (simp add: year_string_def parse_year_def)
  qed
qed

lemma expect_Cons [simp]: "expect c (x # r) = (if x = c then Some r else None)"
  by (simp add: expect_def)

lemma Date_parse_utc:
  assumes "parse_date str = Some (y, m, d, r)" "r \<noteq> []"
    "parse_time r = Some (h, mi, s, ms, r')" "parse_offset r' = Some (Some 0)"
    "1 \<le> m" "m \<le> 12" "1 \<le> d" "d \<le> 31" "h \<le> 23" "mi \<le> 59" "s \<le> 59"
  shows "Date_parse tza str = TimeClip (MakeDate (MakeDay y (m - 1) d) (MakeTime h mi s ms))"
  using assms by (simp add: Date_parse_def Let_def)

text \<open>\<open>Date.parse\<close> reads back what \<open>toISOString\<close> writes, in every time zone.\<close>

lemma Date_parse_iso:
  assumes "- 999999 \<le> y" "y \<le> 999999" "1 \<le> m" "m \<le> 12" "1 \<le> d" "d \<le> 31"
    "0 \<le> h" "h \<le> 23" "0 \<le> mi" "mi \<le> 59" "0 \<le> s" "s \<le> 59" "0 \<le> ms" "ms \<le> 999"
  shows "Date_parse tza
           (year_string y @ ''-'' @ pad 2 m @ ''-'' @ pad 2 d @ ''T'' @ pad 2 h @ '':''
            @ pad 2 mi @ '':'' @ pad 2 s @ ''.'' @ pad 3 ms @ ''Z'')
         = TimeClip (MakeDate (MakeDay y (m - 1) d) (MakeTime h mi s ms))"
proof -
  let ?tail = "''T'' @ pad 2 h @ '':'' @ pad 2 mi @ '':'' @ pad 2 s @ ''.'' @ pad 3 ms @ ''Z''"
  have fm: "\<And>rest. field 2 (pad 2 m @ rest) = Some (m, rest)"
    by (rule field_pad) (use assms in simp_all)
  have fd: "\<And>rest. field 2 (pad 2 d @ rest) = Some (d, rest)"
    by (rule field_pad) (use assms in simp_all)
  have fh: "\<And>rest. field 2 (pad 2 h @ rest) = Some (h, rest)"
    by (rule field_pad) (use assms in simp_all)
  have fmi: "\<And>rest. field 2 (pad 2 mi @ rest) = Some (mi, rest)"
    by (rule field_pad) (use assms in simp_all)
  have fs: "\<And>rest. field 2 (pad 2 s @ rest) = Some (s, rest)"
    by (rule field_pad) (use assms in simp_all)
  have fms: "\<And>rest. field 3 (pad 3 ms @ rest) = Some (ms, rest)"
    by (rule field_pad) (use assms in simp_all)
  have pd: "parse_date (year_string y @ ''-'' @ pad 2 m @ ''-'' @ pad 2 d @ ?tail)
              = Some (y, m, d, ?tail)"
    by (simp add: parse_date_def parse_year_year_string assms(1,2) fm fd)
  have pt: "parse_time ?tail = Some (h, mi, s, ms, ''Z'')"
    using fh [of "'':'' @ pad 2 mi @ '':'' @ pad 2 s @ ''.'' @ pad 3 ms @ ''Z''"]
          fmi [of "'':'' @ pad 2 s @ ''.'' @ pad 3 ms @ ''Z''"]
          fs [of "''.'' @ pad 3 ms @ ''Z''"] fms [of "''Z''"]
    by (simp add: parse_time_def)
  have po: "parse_offset ''Z'' = Some (Some 0)" by (simp add: parse_offset_def)
  have ne: "?tail \<noteq> []" by simp
  show ?thesis
    by (rule Date_parse_utc [OF pd ne pt po]) (use assms in simp_all)
qed

lemma Day_bounds:
  assumes "\<bar>t\<bar> \<le> 8640000000000000"
  shows "- 100000000 \<le> Day t \<and> Day t \<le> 100000000"
proof -
  have 1: "86400000 * (t div 86400000) \<le> t" by (rule div_lo) simp
  have 2: "t < 86400000 * (t div 86400000) + 86400000" by (rule div_hi) simp
  show ?thesis unfolding Day_def msPerDay_def using assms 1 2 by linarith
qed

lemma YearFromTime_range:
  assumes "\<bar>t\<bar> \<le> 8640000000000000"
  shows "- 999999 \<le> YearFromTime t \<and> YearFromTime t \<le> 999999"
proof -
  note b = YearFromTime_bounds [of t]
  note d = Day_bounds [OF assms]
  have hi: "YearFromTime t \<le> 999999"
  proof (rule ccontr)
    assume "\<not> YearFromTime t \<le> 999999"
    then have "DayFromYear 1000000 \<le> DayFromYear (YearFromTime t)"
      by (intro DayFromYear_mono) simp
    moreover have "DayFromYear 1000000 > 100000000" by (simp add: DayFromYear_def)
    ultimately show False using b d by linarith
  qed
  have lo: "- 999999 \<le> YearFromTime t"
  proof (rule ccontr)
    assume "\<not> - 999999 \<le> YearFromTime t"
    then have "DayFromYear (YearFromTime t + 1) \<le> DayFromYear (- 999999)"
      by (intro DayFromYear_mono) simp
    moreover have "DayFromYear (- 999999) < - 100000000" by (simp add: DayFromYear_def)
    ultimately show False using b d by linarith
  qed
  from lo hi show ?thesis by simp
qed

lemma TimeClip_Some: "\<bar>t\<bar> \<le> 8640000000000000 \<Longrightarrow> TimeClip t = Some t"
  by (simp add: TimeClip_def)

lemma TimeClip_eq_Some: "TimeClip t = Some u \<Longrightarrow> u = t \<and> \<bar>t\<bar> \<le> 8640000000000000"
  by (simp add: TimeClip_def split: if_splits)

lemma Date_parse_toISOString:
  assumes "\<bar>t\<bar> \<le> 8640000000000000" "toISOString (Some t) = Inr str"
  shows "Date_parse tza str = Some t"
proof -
  note c = civil_fields [of t] and r = time_field_ranges [of t] and y = YearFromTime_range [OF assms(1)]
  have s: "str = year_string (YearFromTime t) @ ''-'' @ pad 2 (MonthFromTime t + 1) @ ''-''
               @ pad 2 (DateFromTime t) @ ''T'' @ pad 2 (HourFromTime t) @ '':''
               @ pad 2 (MinFromTime t) @ '':'' @ pad 2 (SecFromTime t) @ ''.''
               @ pad 3 (msFromTime t) @ ''Z''"
    using assms(2) by (simp add: toISOString_def)
  have "Date_parse tza str
          = TimeClip (MakeDate (MakeDay (YearFromTime t) (MonthFromTime t + 1 - 1) (DateFromTime t))
                       (MakeTime (HourFromTime t) (MinFromTime t) (SecFromTime t) (msFromTime t)))"
    unfolding s by (rule Date_parse_iso) (use c r y in simp_all)
  also have "\<dots> = TimeClip t" by (simp add: MakeDay_civil time_decompose)
  also have "\<dots> = Some t" by (rule TimeClip_Some [OF assms(1)])
  finally show ?thesis .
qed

lemma Local_UTC [simp]: "LocalTime tza (UTC tza t) = t"
  by (simp add: LocalTime_def UTC_def)


lemma same_day_close:
  assumes "Day a = Day b"
  shows "\<bar>a - b\<bar> < 86400000"
proof -
  define k where "k = Day b"
  have "a div 86400000 = k" using assms by (simp add: Day_def msPerDay_def k_def)
  then have 1: "a = 86400000 * k + a mod 86400000"
    using mult_div_mod_eq [of 86400000 a] by simp
  have 2: "b = 86400000 * k + b mod 86400000" by (simp add: Day_def msPerDay_def k_def)
  have 3: "0 \<le> a mod 86400000" "a mod 86400000 < 86400000"
    "0 \<le> b mod 86400000" "b mod 86400000 < 86400000"
    by simp_all
  show ?thesis using 1 2 3 by linarith
qed


subsection \<open>From calendar fields to time values\<close>

lemma DaysInYear_leap_year: "DaysInYear y = (if leap_year y then 366 else 365)"
  by (auto simp: DaysInYear_def leap_year_def)

lemma month_cases:
  fixes m :: int
  assumes "0 \<le> m" "m \<le> 11"
  shows "m = 0 \<or> m = 1 \<or> m = 2 \<or> m = 3 \<or> m = 4 \<or> m = 5 \<or> m = 6 \<or> m = 7 \<or> m = 8 \<or> m = 9
         \<or> m = 10 \<or> m = 11"
  using assms by presburger

lemma MakeDay_in_year:
  assumes "0 \<le> m" "m \<le> 11"
  shows "MakeDay y m d = DayFromYear y + DaysBeforeMonth (if leap_year y then 1 else 0) m + d - 1"
proof -
  have "m div 12 = 0" "m mod 12 = m" using assms by simp_all
  then show ?thesis by (simp add: MakeDay_def DaysInYear_leap_year Let_def)
qed

lemma day_of_month_date:
  fixes d l m :: int
  assumes "l = 0 \<or> l = 1" "0 \<le> m" "m \<le> 11" "1 \<le> d"
    "d \<le> (if m = 1 then 28 + l else if m = 3 \<or> m = 5 \<or> m = 8 \<or> m = 10 then 30 else 31)"
  defines "k \<equiv> DaysBeforeMonth l m + d - 1"
  shows "0 \<le> k \<and> k < 365 + l
    \<and> (if k < 31 then 0 else if k < 59 + l then 1 else if k < 90 + l then 2
         else if k < 120 + l then 3 else if k < 151 + l then 4 else if k < 181 + l then 5
         else if k < 212 + l then 6 else if k < 243 + l then 7 else if k < 273 + l then 8
         else if k < 304 + l then 9 else if k < 334 + l then 10 else (11::int)) = m
    \<and> (if m = 0 then k + 1 else if m = 1 then k - 30 else if m = 2 then k - 58 - l
         else if m = 3 then k - 89 - l else if m = 4 then k - 119 - l
         else if m = 5 then k - 150 - l else if m = 6 then k - 180 - l
         else if m = 7 then k - 211 - l else if m = 8 then k - 242 - l
         else if m = 9 then k - 272 - l else if m = 10 then k - 303 - l else k - 333 - l) = d"
  using month_cases [OF assms(2,3)] assms(1,4,5) unfolding k_def DaysBeforeMonth_def
  by (elim disjE) simp_all

text \<open>From calendar fields to a time value and back.\<close>

lemma civil_of_MakeDay:
  assumes "0 \<le> m" "m \<le> 11" "1 \<le> d" "d \<le> daysInMonth y m" "0 \<le> tod" "tod < msPerDay"
  shows "YearFromTime (MakeDate (MakeDay y m d) tod) = y"
    and "MonthFromTime (MakeDate (MakeDay y m d) tod) = m"
    and "DateFromTime (MakeDate (MakeDay y m d) tod) = d"
proof -
  let ?t = "MakeDate (MakeDay y m d) tod"
  define l :: int where "l = (if leap_year y then 1 else 0)"
  define k where "k = DaysBeforeMonth l m + d - 1"
  have l: "l = 0 \<or> l = 1" by (simp add: l_def)
  have dm: "d \<le> (if m = 1 then 28 + l else if m = 3 \<or> m = 5 \<or> m = 8 \<or> m = 10 then 30 else 31)"
    using assms(4) by (auto simp: daysInMonth_def l_def split: if_splits)
  note c = day_of_month_date [OF l assms(1,2,3) dm, folded k_def]
  have day: "Day ?t = DayFromYear y + k"
    by (simp add: Day_MakeDate [OF assms(5,6)] MakeDay_in_year [OF assms(1,2)] k_def l_def)
  have diy: "DaysInYear y = 365 + l" by (simp add: DaysInYear_leap_year l_def)
  show y: "YearFromTime ?t = y"
    by (rule YearFromTime_unique) (use c day diy in \<open>simp_all add: DayFromYear_Suc\<close>)
  have il: "InLeapYear ?t = l" by (simp add: InLeapYear_def y diy l_def)
  have dw: "DayWithinYear ?t = k" by (simp add: DayWithinYear_def y day)
  show mo: "MonthFromTime ?t = m"
    using c by (simp only: MonthFromTime_def Let_def il dw)
  show "DateFromTime ?t = d"
    using c by (simp only: DateFromTime_def Let_def il dw mo)
qed

lemma MakeDay_next_month_zero:
  assumes "0 \<le> m" "m \<le> 11"
  shows "MakeDay y (m + 1) 0 = MakeDay y m (daysInMonth y m)"
proof (cases "m = 11")
  case True
  have "MakeDay y 12 0 = DayFromYear (y + 1) - 1"
    by (simp add: MakeDay_def DaysBeforeMonth_def Let_def)
  also have "\<dots> = DayFromYear y + DaysInYear y - 1" by (simp add: DayFromYear_Suc)
  also have "\<dots> = MakeDay y 11 (daysInMonth y 11)"
    by (simp add: MakeDay_in_year DaysInYear_leap_year DaysBeforeMonth_def daysInMonth_def)
  finally show ?thesis using True by simp
next
  case False
  then have m: "0 \<le> m + 1" "m + 1 \<le> 11" using assms by simp_all
  show ?thesis
    using month_cases [OF assms] False
    unfolding MakeDay_in_year [OF assms] MakeDay_in_year [OF m]
    by (elim disjE) (simp_all add: DaysBeforeMonth_def daysInMonth_def)
qed

lemma MakeDay_shift:
  assumes "0 \<le> m" "m \<le> 11"
  shows "MakeDay y m d = MakeDay y m e + (d - e)"
  by (simp add: MakeDay_in_year [OF assms])

lemma daysInMonth_range: "28 \<le> daysInMonth y m \<and> daysInMonth y m \<le> 31"
  by (simp add: daysInMonth_def)

section \<open>Filter pipeline and search\<close>

text \<open>
  \<^bold>\<open>C4.\<close> For every surgery collection, doctor filter and advanced filter set, the filter
  of \<open>CalendarView\<close> keeps exactly the surgeries for which: if the doctor filter is not
  \<open>'all'\<close> then it equals \<open>mainSurgeonId\<close> or is a member of \<open>participatingIds\<close>, and, for
  each of the four advanced filters that is not \<open>'all'\<close>, the field of the surgery equals the
  filter value. The result is the sub-list of the collection, in its order.
\<close>

theorem filteredSurgeries_keeps_iff:
  "filteredSurgeries ss doctorFilter af =
     filter (\<lambda>s.
        (doctorFilter \<noteq> ''all'' \<longrightarrow>
           doctorFilter = mainSurgeonId s \<or> doctorFilter \<in> set (participatingIds s))
        \<and> (f_authStatus af \<noteq> ''all'' \<longrightarrow> authStatus s = f_authStatus af)
        \<and> (f_surgeryStatus af \<noteq> ''all'' \<longrightarrow> surgeryStatus s = f_surgeryStatus af)
        \<and> (f_hospitalId af \<noteq> ''all'' \<longrightarrow> hospitalId s = f_hospitalId af)
        \<and> (f_insuranceId af \<noteq> ''all'' \<longrightarrow> insuranceId s = f_insuranceId af)) ss"
  unfolding filteredSurgeries_def
  by (rule filter_cong) auto

theorem filteredSurgeries_keeps_iff_witness:
  "''d2'' \<noteq> ''all'' \<and> ''Liberado'' \<noteq> ''all'' \<and> ''H1'' \<noteq> ''all''
   \<and> filteredSurgeries
        [example_surgery ''s1'' ''Ana'' ''2024-03-15T10:00'' ''H1'' ''Liberado'' ''Agendada'' 100,
         example_surgery ''s2'' ''Bia'' ''2024-03-16T10:00'' ''H2'' ''Pendente'' ''Agendada'' 100]
        ''d2''
        \<lparr> f_authStatus = ''Liberado'', f_surgeryStatus = ''all'', f_hospitalId = ''H1'',
          f_insuranceId = ''all'' \<rparr>
      = [example_surgery ''s1'' ''Ana'' ''2024-03-15T10:00'' ''H1'' ''Liberado'' ''Agendada'' 100]"
  by (simp add: filteredSurgeries_keeps_iff example_surgery_def)

text \<open>
  \<^bold>\<open>C7.\<close> With the doctor filter and the four advanced filters all set to \<open>'all'\<close>, the
  filter returns the collection itself: same elements, same order.
\<close>

theorem filteredSurgeries_all_identity:
  "filteredSurgeries ss ''all''
     \<lparr> f_authStatus = ''all'', f_surgeryStatus = ''all'', f_hospitalId = ''all'',
       f_insuranceId = ''all'' \<rparr> = ss"
  by (simp add: filteredSurgeries_def)

lemma dropWhile_all_iff: "(\<forall>c \<in> set (dropWhile P q). P c) \<longleftrightarrow> (\<forall>c \<in> set q. P c)"
proof
  assume a: "\<forall>c \<in> set (dropWhile P q). P c"
  have "dropWhile P q = []"
  proof (rule ccontr)
    assume n: "dropWhile P q \<noteq> []"
    then have "\<not> P (hd (dropWhile P q))" by (rule hd_dropWhile)
    moreover have "hd (dropWhile P q) \<in> set (dropWhile P q)" using n by (rule hd_in_set)
    ultimately show False using a by blast
  qed
  then show "\<forall>c \<in> set q. P c" by (simp only: dropWhile_eq_Nil_conv)
next
  assume "\<forall>c \<in> set q. P c"
  then show "\<forall>c \<in> set (dropWhile P q). P c" by (meson set_dropWhileD)
qed

lemma trim_empty_iff: "trim q = [] \<longleftrightarrow> list_all isWhiteSpace q"
  by (simp add: trim_def dropWhile_all_iff list_all_iff)

lemma includes_lower_iff:
  "includes_str (toLowerCase name) (toLowerCase q) \<longleftrightarrow> ci_substring q name"
proof
  assume "includes_str (toLowerCase name) (toLowerCase q)"
  then obtain ps ss where e: "map lower_char name = ps @ map lower_char q @ ss"
    by (auto simp: includes_str_def toLowerCase_def sublist_def)
  let ?b = "take (length ps) name"
  let ?seg = "take (length q) (drop (length ps) name)"
  let ?a = "drop (length q) (drop (length ps) name)"
  have len: "length name = length ps + length q + length ss"
    using arg_cong [OF e, of length] by simp
  have "?seg @ ?a = drop (length ps) name" by (rule append_take_drop_id)
  then have n: "name = ?b @ ?seg @ ?a" by (simp only: append_take_drop_id)
  have l: "length ?seg = length q" using len by simp
  have "map lower_char ?seg = take (length q) (drop (length ps) (map lower_char name))"
    by (simp add: take_map drop_map)
  also have "\<dots> = map lower_char q" by (simp add: e)
  finally have m: "map lower_char ?seg = map lower_char q" .
  have "\<forall>i < length q. lower_char (?seg ! i) = lower_char (q ! i)"
  proof (intro allI impI)
    fix i assume i: "i < length q"
    have "map lower_char ?seg ! i = map lower_char q ! i" by (simp only: m)
    then show "lower_char (?seg ! i) = lower_char (q ! i)" using i l by (simp del: nth_take)
  qed
  with n l show "ci_substring q name" unfolding ci_substring_def by blast
next
  assume "ci_substring q name"
  then obtain b seg a where n: "name = b @ seg @ a" and l: "length seg = length q"
    and c: "\<forall>i < length q. lower_char (seg ! i) = lower_char (q ! i)"
    unfolding ci_substring_def by blast
  have "map lower_char seg = map lower_char q"
    by (rule nth_equalityI) (use l c in auto)
  then have "map lower_char name = map lower_char b @ map lower_char q @ map lower_char a"
    using n by simp
  then show "includes_str (toLowerCase name) (toLowerCase q)"
    unfolding includes_str_def toLowerCase_def sublist_def by blast
qed

text \<open>
  \<^bold>\<open>C8.\<close> The header search with a query that is empty or consists of white space only
  returns the empty list, not the collection; with any other query it returns exactly the
  surgeries whose patient name has the query (as typed, not trimmed) as a
  case-insensitive substring, in the order of the collection.
\<close>

theorem searchedSurgeries_spec:
  "(list_all isWhiteSpace q \<longrightarrow> searchedSurgeries q ss = [])
   \<and> (\<not> list_all isWhiteSpace q \<longrightarrow>
        searchedSurgeries q ss = filter (\<lambda>s. ci_substring q (patientName s)) ss)"
  by (simp add: searchedSurgeries_def trim_empty_iff includes_lower_iff)

theorem searchedSurgeries_spec_witness:
  "list_all isWhiteSpace ''  ''
   \<and> searchedSurgeries ''  '' (surgeries example_state) = []
   \<and> \<not> list_all isWhiteSpace ''souza''
   \<and> searchedSurgeries ''souza'' (surgeries example_state)
       = filter (\<lambda>s. ci_substring ''souza'' (patientName s)) (surgeries example_state)
   \<and> searchedSurgeries ''souza'' (surgeries example_state) = surgeries example_state"
proof -
  have w: "list_all isWhiteSpace ''  ''" by (simp add: isWhiteSpace_def)
  have n: "\<not> list_all isWhiteSpace ''souza''" by (simp add: isWhiteSpace_def)
  have 1: "searchedSurgeries ''  '' (surgeries example_state) = []"
    by (rule searchedSurgeries_spec [THEN conjunct1, THEN mp, OF w])
  have 2: "searchedSurgeries ''souza'' (surgeries example_state)
             = filter (\<lambda>s. ci_substring ''souza'' (patientName s)) (surgeries example_state)"
    by (rule searchedSurgeries_spec [THEN conjunct2, THEN mp, OF n])
  have 3: "searchedSurgeries ''souza'' (surgeries example_state) = surgeries example_state"
    by code_simp
  from w n 1 2 3 show ?thesis by blast
qed

section \<open>Drop on an unknown surgery\<close>

text \<open>
  \<^bold>\<open>C10.\<close> When no surgery of the collection in memory has the identifier of the drop
  event, \<open>handleSurgeryDrop\<close> does nothing at all: it returns the state it was given, so no
  request was sent to the remote store, no collection changed and no notification was
  emitted, whatever the store would have answered.
\<close>

theorem handleSurgeryDrop_unknown_noop:
  assumes "\<forall>s \<in> set (surgeries st). surgery_id s \<noteq> surgeryId"
  shows "handleSurgeryDrop tza st surgeryId newDate updateError r = Inr st"
proof -
  have "find (\<lambda>s. surgery_id s = surgeryId) (surgeries st) = None"
    using assms by (simp add: find_None_iff)
  then show ?thesis by (simp add: handleSurgeryDrop_def)
qed

theorem handleSurgeryDrop_unknown_noop_witness:
  "list_all (\<lambda>s. surgery_id s \<noteq> ''s9'') (surgeries example_state)
   \<and> handleSurgeryDrop (- 10800000) example_state ''s9'' (Some 1710892800000) (Some ''refused'')
        example_responses = Inr example_state"
proof -
  have h: "\<forall>s \<in> set (surgeries example_state). surgery_id s \<noteq> ''s9''"
    by (simp add: example_state_def example_surgery_def)
  have "list_all (\<lambda>s. surgery_id s \<noteq> ''s9'') (surgeries example_state)"
    using h by (simp only: list_all_iff)
  with handleSurgeryDrop_unknown_noop [OF h] show ?thesis by blast
qed

section \<open>Failures in the write-then-reload cycle\<close>

lemma collections_addToast [simp]: "collections (addToast m k st) = collections st"
  by (simp add: collections_def addToast_def)

lemma collections_send [simp]: "collections (send q st) = collections st"
  by (simp add: collections_def send_def)

lemma toasts_send [simp]: "toasts (send q st) = toasts st"
  by (simp add: send_def)

lemma toasts_addToast [simp]: "toasts (addToast m k st) = toasts st @ [(m, k)]"
  by (simp add: addToast_def)

lemma requests_send [simp]: "requests (send q st) = requests st @ [q]"
  by (simp add: send_def)

lemma requests_addToast [simp]: "requests (addToast m k st) = requests st"
  by (simp add: addToast_def)










section \<open>Reschedule\<close>

lemma toISOString_Inr: "toISOString d = Inr ts \<Longrightarrow> \<exists>u. d = Some u"
  by (cases d) (simp_all add: toISOString_def)

lemma toISOString_Some: "\<exists>ts. toISOString (Some u) = Inr ts"
  by (simp add: toISOString_def)

lemma newDateTime_eq:
  "newDateTime tza surgery newDate =
     (case (new_Date_string tza (dateTime surgery), newDate) of
        (Some t0, Some t1) \<Rightarrow> toISOString (TimeClip (UTC tza (dropped_local tza t0 t1)))
      | _ \<Rightarrow> Inl RangeError)"
proof (cases "new_Date_string tza (dateTime surgery)")
  case None
  then show ?thesis
    by (simp add: newDateTime_def new_Date_def getHours_def toISOString_def)
next
  case old: (Some t0)
  show ?thesis
  proof (cases newDate)
    case None
    then show ?thesis
      by (simp add: newDateTime_def new_Date_def getFullYear_def toISOString_def old)
  next
    case (Some t1)
    then show ?thesis
      by (simp add: newDateTime_def new_Date_def getFullYear_def getMonth_def getDate_def
            getHours_def getMinutes_def dropped_local_def old)
  qed
qed

lemma newDateTime_Inr:
  assumes "newDateTime tza surgery newDate = Inr ts"
  shows "\<exists>t0 t1. new_Date_string tza (dateTime surgery) = Some t0 \<and> newDate = Some t1
           \<and> \<bar>UTC tza (dropped_local tza t0 t1)\<bar> \<le> 8640000000000000
           \<and> toISOString (Some (UTC tza (dropped_local tza t0 t1))) = Inr ts"
proof -
  obtain t0 t1 where a: "new_Date_string tza (dateTime surgery) = Some t0" "newDate = Some t1"
    using assms unfolding newDateTime_eq by (auto split: option.splits)
  then have i: "toISOString (TimeClip (UTC tza (dropped_local tza t0 t1))) = Inr ts"
    using assms unfolding newDateTime_eq by simp
  then obtain u where u: "TimeClip (UTC tza (dropped_local tza t0 t1)) = Some u"
    using toISOString_Inr by blast
  note c = TimeClip_eq_Some [OF u]
  with i u a show ?thesis by auto
qed

lemma dropped_local_time:
  "HourFromTime (dropped_local tza t0 t1) = HourFromTime (LocalTime tza t0)"
  "MinFromTime (dropped_local tza t0 t1) = MinFromTime (LocalTime tza t0)"
  "SecFromTime (dropped_local tza t0 t1) = 0"
  "msFromTime (dropped_local tza t0 t1) = 0"
  unfolding dropped_local_def
  using time_field_ranges [of "LocalTime tza t0"]
  by (simp_all add: time_fields_MakeDate)

text \<open>
  \<^bold>\<open>C9.\<close> Whenever the reschedule computation produces a timestamp, that timestamp, read
  back the way the application reads every \<open>dateTime\<close> (\<open>new Date(s)\<close> and the local
  getters), has seconds 0 and milliseconds 0, whatever seconds the surgery had: the
  constructor is given hours and minutes only.
\<close>

theorem reschedule_seconds_zero:
  assumes "newDateTime tza surgery newDate = Inr ts"
  shows "getSeconds tza (new_Date_string tza ts) = Some 0
         \<and> getMilliseconds tza (new_Date_string tza ts) = Some 0"
proof -
  obtain t0 t1 where
    r: "\<bar>UTC tza (dropped_local tza t0 t1)\<bar> \<le> 8640000000000000"
    and i: "toISOString (Some (UTC tza (dropped_local tza t0 t1))) = Inr ts"
    using newDateTime_Inr [OF assms] by blast
  have "new_Date_string tza ts = Some (UTC tza (dropped_local tza t0 t1))"
    unfolding new_Date_string_def by (rule Date_parse_toISOString [OF r i])
  then show ?thesis
    by (simp add: getSeconds_def getMilliseconds_def dropped_local_time)
qed

theorem reschedule_seconds_zero_witness:
  "newDateTime (- 10800000)
     (example_surgery ''s1'' ''Ana Souza'' ''2024-03-15T10:00:30.500'' ''H1'' ''Liberado'' ''Agendada'' 100)
     (Some 1710903600000) = Inr ''2024-03-20T13:00:00.000Z''
   \<and> getSeconds (- 10800000) (new_Date_string (- 10800000) ''2024-03-15T10:00:30.500'') = Some 30
   \<and> getMilliseconds (- 10800000) (new_Date_string (- 10800000) ''2024-03-15T10:00:30.500'') = Some 500
   \<and> getSeconds (- 10800000) (new_Date_string (- 10800000) ''2024-03-20T13:00:00.000Z'') = Some 0
   \<and> getMilliseconds (- 10800000) (new_Date_string (- 10800000) ''2024-03-20T13:00:00.000Z'') = Some 0"
proof -
  have e: "newDateTime (- 10800000)
     (example_surgery ''s1'' ''Ana Souza'' ''2024-03-15T10:00:30.500'' ''H1'' ''Liberado'' ''Agendada'' 100)
     (Some 1710903600000) = Inr ''2024-03-20T13:00:00.000Z''"
    by code_simp
  have o: "getSeconds (- 10800000) (new_Date_string (- 10800000) ''2024-03-15T10:00:30.500'') = Some 30"
    "getMilliseconds (- 10800000) (new_Date_string (- 10800000) ''2024-03-15T10:00:30.500'') = Some 500"
    by code_simp+
  from reschedule_seconds_zero [OF e] e o show ?thesis by blast
qed

lemma dropped_local_day:
  assumes "\<not> (0 \<le> YearFromTime (LocalTime tza t1) \<and> YearFromTime (LocalTime tza t1) \<le> 99)"
  shows "Day (dropped_local tza t0 t1) = Day (LocalTime tza t1)"
proof -
  have f: "MakeFullYear (YearFromTime (LocalTime tza t1)) = YearFromTime (LocalTime tza t1)"
    using assms by (simp add: MakeFullYear_def)
  note r = time_field_ranges [of "LocalTime tza t0"]
  have m: "0 \<le> MakeTime (HourFromTime (LocalTime tza t0)) (MinFromTime (LocalTime tza t0)) 0 0
           \<and> MakeTime (HourFromTime (LocalTime tza t0)) (MinFromTime (LocalTime tza t0)) 0 0 < msPerDay"
    by (rule MakeTime_range) (use r in simp_all)
  show ?thesis
    unfolding dropped_local_def f MakeDay_civil
    by (rule Day_MakeDate) (use m in simp_all)
qed

lemma handleSurgeryDrop_keeps_surgeries:
  assumes "handleSurgeryDrop tza st surgeryId newDate updateError r = Inr st'"
    and "session st = None \<or> updateError \<noteq> None"
  shows "surgeries st' = surgeries st"
  using assms
  by (auto simp: handleSurgeryDrop_def reload_def addToast_def send_def Let_def
        split: option.splits sum.splits)

text \<open>
  \<^bold>\<open>C1\<close>, as the code has it. For a surgery whose \<open>dateTime\<close> parses to a valid time, and
  a valid target date that is at least one day inside the range of \<open>Date\<close> and whose local
  year is not one of 0..99, \<open>handleSurgeryDrop\<close> computes a timestamp; read back by
  \<open>new Date\<close>, its local hour and minute are those of the surgery and its local year, month
  and day are those of the target. The computation is a function of the record and the
  date and returns a new string; and the handler around it leaves the surgeries in memory as
  they are: they change only when the reload after a successful write replaces the whole
  collection.
\<close>

theorem reschedule_keeps_time_of_day:
  assumes "new_Date_string tza (dateTime surgery) = Some t0"
    and "newDate = Some t1"
    and "\<bar>t1\<bar> \<le> 8639999913600000"
    and "getFullYear tza newDate = Some y"
    and "y < 0 \<or> 99 < y"
  shows "(\<exists>ts. newDateTime tza surgery newDate = Inr ts
           \<and> getHours tza (new_Date_string tza ts)
               = getHours tza (new_Date_string tza (dateTime surgery))
           \<and> getMinutes tza (new_Date_string tza ts)
               = getMinutes tza (new_Date_string tza (dateTime surgery))
           \<and> getFullYear tza (new_Date_string tza ts) = getFullYear tza newDate
           \<and> getMonth tza (new_Date_string tza ts) = getMonth tza newDate
           \<and> getDate tza (new_Date_string tza ts) = getDate tza newDate)
         \<and> (\<forall>st surgeryId updateError r st'.
                handleSurgeryDrop tza st surgeryId newDate updateError r = Inr st'
                \<and> (session st = None \<or> updateError \<noteq> None)
                \<longrightarrow> surgeries st' = surgeries st)"
proof -
  let ?L = "dropped_local tza t0 t1"
  have yr: "\<not> (0 \<le> YearFromTime (LocalTime tza t1) \<and> YearFromTime (LocalTime tza t1) \<le> 99)"
    using assms(2,4,5) by (auto simp: getFullYear_def)
  have day: "Day ?L = Day (LocalTime tza t1)" by (rule dropped_local_day [OF yr])
  have "\<bar>?L - LocalTime tza t1\<bar> < 86400000" by (rule same_day_close [OF day])
  then have "\<bar>UTC tza ?L - t1\<bar> < 86400000" by (simp add: UTC_def LocalTime_def)
  then have r: "\<bar>UTC tza ?L\<bar> \<le> 8640000000000000" using assms(3) by linarith
  obtain ts where i: "toISOString (Some (UTC tza ?L)) = Inr ts"
    using toISOString_Some by blast
  have n: "newDateTime tza surgery newDate = Inr ts"
    unfolding newDateTime_eq using assms(1,2) r i by (simp add: TimeClip_Some)
  have p: "new_Date_string tza ts = Some (UTC tza ?L)"
    unfolding new_Date_string_def by (rule Date_parse_toISOString [OF r i])
  have "getHours tza (new_Date_string tza ts) = getHours tza (new_Date_string tza (dateTime surgery))"
    "getMinutes tza (new_Date_string tza ts) = getMinutes tza (new_Date_string tza (dateTime surgery))"
    by (simp_all add: p assms(1) getHours_def getMinutes_def dropped_local_time)
  moreover have "getFullYear tza (new_Date_string tza ts) = getFullYear tza newDate"
    "getMonth tza (new_Date_string tza ts) = getMonth tza newDate"
    "getDate tza (new_Date_string tza ts) = getDate tza newDate"
    using fields_depend_on_Day [OF day]
    by (simp_all add: p assms(2) getFullYear_def getMonth_def getDate_def)
  ultimately have "\<exists>ts. newDateTime tza surgery newDate = Inr ts
           \<and> getHours tza (new_Date_string tza ts)
               = getHours tza (new_Date_string tza (dateTime surgery))
           \<and> getMinutes tza (new_Date_string tza ts)
               = getMinutes tza (new_Date_string tza (dateTime surgery))
           \<and> getFullYear tza (new_Date_string tza ts) = getFullYear tza newDate
           \<and> getMonth tza (new_Date_string tza ts) = getMonth tza newDate
           \<and> getDate tza (new_Date_string tza ts) = getDate tza newDate"
    using n by blast
  then show ?thesis using handleSurgeryDrop_keeps_surgeries by blast
qed

theorem reschedule_keeps_time_of_day_witness:
  "new_Date_string (- 10800000) ''2024-03-15T10:00'' = Some 1710507600000
   \<and> getFullYear (- 10800000) (Some 1710903600000) = Some 2024
   \<and> newDateTime (- 10800000)
        (example_surgery ''s1'' ''Ana Souza'' ''2024-03-15T10:00'' ''H1'' ''Liberado'' ''Agendada'' 100)
        (Some 1710903600000) = Inr ''2024-03-20T13:00:00.000Z''
   \<and> getHours (- 10800000) (new_Date_string (- 10800000) ''2024-03-20T13:00:00.000Z'') = Some 10
   \<and> getMinutes (- 10800000) (new_Date_string (- 10800000) ''2024-03-20T13:00:00.000Z'') = Some 0
   \<and> getFullYear (- 10800000) (new_Date_string (- 10800000) ''2024-03-20T13:00:00.000Z'') = Some 2024
   \<and> getMonth (- 10800000) (new_Date_string (- 10800000) ''2024-03-20T13:00:00.000Z'') = Some 2
   \<and> getDate (- 10800000) (new_Date_string (- 10800000) ''2024-03-20T13:00:00.000Z'') = Some 20"
proof -
  let ?s = "example_surgery ''s1'' ''Ana Souza'' ''2024-03-15T10:00'' ''H1'' ''Liberado'' ''Agendada'' 100"
  let ?tza = "- 10800000 :: int"
  have d: "dateTime ?s = ''2024-03-15T10:00''" by (simp add: example_surgery_def)
  have a1: "new_Date_string ?tza (dateTime ?s) = Some 1710507600000" unfolding d by code_simp
  have a3: "\<bar>1710903600000 :: int\<bar> \<le> 8639999913600000" by simp
  have a4: "getFullYear ?tza (Some 1710903600000) = Some 2024" by code_simp
  have a5: "(2024::int) < 0 \<or> 99 < (2024::int)" by simp
  obtain ts where n: "newDateTime ?tza ?s (Some 1710903600000) = Inr ts"
    and h: "getHours ?tza (new_Date_string ?tza ts) = getHours ?tza (new_Date_string ?tza (dateTime ?s))"
    and m: "getMinutes ?tza (new_Date_string ?tza ts) = getMinutes ?tza (new_Date_string ?tza (dateTime ?s))"
    and y: "getFullYear ?tza (new_Date_string ?tza ts) = getFullYear ?tza (Some 1710903600000)"
    and mo: "getMonth ?tza (new_Date_string ?tza ts) = getMonth ?tza (Some 1710903600000)"
    and dt: "getDate ?tza (new_Date_string ?tza ts) = getDate ?tza (Some 1710903600000)"
    using reschedule_keeps_time_of_day [OF a1 refl a3 a4 a5] by blast
  have e: "newDateTime ?tza ?s (Some 1710903600000) = Inr ''2024-03-20T13:00:00.000Z''"
    by code_simp
  have ts: "ts = ''2024-03-20T13:00:00.000Z''" using n e by simp
  have v: "getHours ?tza (Some 1710507600000) = Some 10"
    "getMinutes ?tza (Some 1710507600000) = Some 0"
    "getMonth ?tza (Some 1710903600000) = Some 2"
    "getDate ?tza (Some 1710903600000) = Some 20"
    by code_simp+
  show ?thesis
    using a1 a4 e h m y mo dt v unfolding ts d by simp
qed

text \<open>
  The claim is stated for every surgery and every target date. It fails for a target in the
  years 0..99, which the \<open>Date\<close> constructor reads as 1900..1999 (dropped on 20 March of
  the year 50, the surgery lands on 20 March 1950), and for a surgery whose \<open>dateTime\<close> does
  not parse (the empty string), where \<open>toISOString\<close> throws and no timestamp is produced.
\<close>

theorem reschedule_keeps_time_of_day_counterexample:
  "getFullYear 0 (Date_parse 0 ''0050-03-20'') = Some 50
   \<and> newDateTime 0
        (example_surgery ''s1'' ''Ana Souza'' ''2024-03-15T10:00'' ''H1'' ''Liberado'' ''Agendada'' 100)
        (Date_parse 0 ''0050-03-20'') = Inr ''1950-03-20T10:00:00.000Z''
   \<and> getFullYear 0 (new_Date_string 0 ''1950-03-20T10:00:00.000Z'') = Some 1950
   \<and> newDateTime 0
        (example_surgery ''s2'' ''Bia Lima'' [] ''H1'' ''Liberado'' ''Agendada'' 100)
        (Date_parse 0 ''2024-03-20'') = Inl RangeError"
  by code_simp


section \<open>Dashboard revenue\<close>

lemma local_midnight:
  assumes "\<bar>now\<bar> \<le> 8639999913600000"
  shows "\<exists>u. setHours tza (Some now) 0 0 0 0 = Some u \<and> Day (LocalTime tza u) = Day (LocalTime tza now)"
proof -
  let ?L = "MakeDate (Day (LocalTime tza now)) (MakeTime 0 0 0 0)"
  have z: "MakeTime 0 0 0 0 = 0" by (simp add: MakeTime_def)
  have day: "Day ?L = Day (LocalTime tza now)"
    unfolding z by (rule Day_MakeDate) (simp_all add: msPerDay_def)
  have "\<bar>?L - LocalTime tza now\<bar> < 86400000" by (rule same_day_close [OF day])
  then have "\<bar>UTC tza ?L - now\<bar> < 86400000" by (simp add: UTC_def LocalTime_def)
  then have r: "\<bar>UTC tza ?L\<bar> \<le> 8640000000000000" using assms by linarith
  have "setHours tza (Some now) 0 0 0 0 = Some (UTC tza ?L)"
    by (simp add: setHours_def TimeClip_Some [OF r])
  with day show ?thesis by simp
qed

text \<open>
  The numbers of the scenarios below, in double arithmetic. The literals \<open>0.1\<close> and \<open>0.2\<close>
  denote doubles whose sum is not a double, so that their \<open>+\<close> rounds.
\<close>

lemma literal_doubles:
  "round_double 100 = Finite 100" "round_double 200 = Finite 200"
  "round_double 50 = Finite 50" "round_double 1000 = Finite 1000"
  "round_double (1 / 10) = Finite (3602879701896397 / 36028797018963968)"
  "round_double (2 / 10) = Finite (3602879701896397 / 18014398509481984)"
  "round_double (3 / 10) = Finite (5404319552844595 / 18014398509481984)"
  by code_simp+

lemma dadd_commute: "dadd a b = dadd b a"
  by (cases a; cases b) (simp_all add: add.commute)

text \<open>Ties go to the even significand: \<open>2^53 + 1\<close>, \<open>2^53 + 3\<close> and \<open>1 + 2^-53\<close>.\<close>

lemma round_double_ties:
  "dadd (Finite 9007199254740992) (Finite 1) = Finite 9007199254740992"
  "dadd (Finite 9007199254740992) (Finite 3) = Finite 9007199254740996"
  "dadd (Finite 1) (Finite (1 / 9007199254740992)) = Finite 1"
  "dadd (Finite 5) (Finite (- 5)) = Finite 0"
  by code_simp+

lemma dadd_scenario:
  "dadd (Finite 0) (Finite 100) = Finite 100"
  "dadd (Finite 100) (Finite 200) = Finite 300"
  "dadd (Finite 300) (Finite 50) = Finite 350"
  by code_simp+

lemma dadd_tenths:
  "dadd (Finite 0) (Finite (3602879701896397 / 36028797018963968))
     = Finite (3602879701896397 / 36028797018963968)"
  "dadd (Finite (3602879701896397 / 36028797018963968))
        (Finite (3602879701896397 / 18014398509481984))
     = Finite (1351079888211149 / 4503599627370496)"
  by code_simp+

lemma tenths_are_doubles:
  "is_double (Finite (3602879701896397 / 36028797018963968))"
  "is_double (Finite (3602879701896397 / 18014398509481984))"
  "is_double (Finite (1351079888211149 / 4503599627370496))"
  "\<not> is_double (Finite (10808639105689191 / 36028797018963968))"
  by code_simp+

lemma example_surgery_fields:
  "surgeryStatus (example_surgery i p d h a st v) = st"
  "totalValue (example_surgery i p d h a st v) = Some (round_double v)"
  "dateTime (example_surgery i p d h a st v) = d"
  by (simp_all add: example_surgery_def)

lemma falls_in_month_of_dateTime:
  "falls_in_month_of tza now s
   = (case new_Date_string tza (dateTime s) of
        None \<Rightarrow> False
      | Some t \<Rightarrow>
          YearFromTime (LocalTime tza t) = YearFromTime (LocalTime tza now)
          \<and> MonthFromTime (LocalTime tza t) = MonthFromTime (LocalTime tza now))"
  by (simp add: falls_in_month_of_def)

lemma march_2024:
  "falls_in_month_of (- 10800000) 1710507600000
     (example_surgery i p ''2024-03-01T08:00'' h a st v)"
  "falls_in_month_of (- 10800000) 1710507600000
     (example_surgery i p ''2024-03-10T09:30'' h a st v)"
  "falls_in_month_of (- 10800000) 1710507600000
     (example_surgery i p ''2024-03-31T23:00'' h a st v)"
  unfolding falls_in_month_of_dateTime example_surgery_fields by code_simp+

text \<open>
  \<^bold>\<open>C6.\<close> For every surgery collection and every clock value \<open>now\<close> (the value of
  \<open>new Date()\<close>; it is at least a day inside the range of \<open>Date\<close>), \<open>monthRevenue\<close> is the sum
  in double arithmetic, added one by one from 0 in the order of the collection, of
  \<open>totalValue\<close> (0 where it is missing, zero or \<open>NaN\<close>) over exactly the surgeries whose status
  is \<open>Realizada\<close> and whose date falls in the local calendar month and year of \<open>now\<close>. A
  surgery with any other status contributes nothing.
\<close>

theorem monthRevenue_spec:
  assumes "\<bar>now\<bar> \<le> 8639999913600000"
  shows "monthRevenue (dashboard tza now ss)
         = double_sum (map (\<lambda>s. or0 (totalValue s))
             (filter (\<lambda>s. surgeryStatus s = ''Realizada'' \<and> falls_in_month_of tza now s) ss))"
proof -
  obtain u where u: "setHours tza (Some now) 0 0 0 0 = Some u"
    and d: "Day (LocalTime tza u) = Day (LocalTime tza now)"
    using local_midnight [OF assms] by blast
  note f = fields_depend_on_Day [OF d]
  have p: "\<And>s. (let sDate = new_Date_string tza (dateTime s)
                 in surgeryStatus s = ''Realizada''
                    \<and> num_eq (getMonth tza sDate) (getMonth tza (Some u))
                    \<and> num_eq (getFullYear tza sDate) (getFullYear tza (Some u)))
             = (surgeryStatus s = ''Realizada'' \<and> falls_in_month_of tza now s)"
    by (auto simp: falls_in_month_of_def num_eq_def getMonth_def getFullYear_def f Let_def
          split: option.splits)
  show ?thesis
    by (simp add: dashboard_def u double_sum_def foldl_map p) (simp add: Let_def)
qed

text \<open>
  The scenario of the specification: three performed surgeries of this month worth 100, 200
  and 50 and a cancelled one worth 1000 give 350.
\<close>

theorem monthRevenue_spec_witness:
  "\<bar>1710507600000 :: int\<bar> \<le> 8639999913600000
   \<and> monthRevenue (dashboard (- 10800000) 1710507600000
        [example_surgery ''s1'' ''Ana'' ''2024-03-01T08:00'' ''H1'' ''Liberado'' ''Realizada'' 100,
         example_surgery ''s2'' ''Bia'' ''2024-03-10T09:30'' ''H1'' ''Liberado'' ''Realizada'' 200,
         example_surgery ''s3'' ''Caio'' ''2024-03-31T23:00'' ''H1'' ''Liberado'' ''Realizada'' 50,
         example_surgery ''s4'' ''Davi'' ''2024-03-12T10:00'' ''H1'' ''Liberado'' ''Cancelada'' 1000])
     = Finite 350"
proof -
  have h: "\<bar>1710507600000 :: int\<bar> \<le> 8639999913600000" by simp
  show ?thesis
    unfolding monthRevenue_spec [OF h] using h
    by (simp add: example_surgery_fields march_2024 literal_doubles or0_def double_sum_def
          dadd_scenario del: dadd.simps)
qed

text \<open>
  The sum of the claim read as the sum of the numbers: two performed surgeries of this month
  worth \<open>0.1\<close> and \<open>0.2\<close>. Both values are doubles; their sum is not, and \<open>monthRevenue\<close> is the
  double next to it, \<open>0.30000000000000004\<close>, which is not the number \<open>0.3\<close> either.
\<close>

theorem monthRevenue_spec_counterexample:
  "map (\<lambda>s. or0 (totalValue s))
     [example_surgery ''s1'' ''Ana'' ''2024-03-01T08:00'' ''H1'' ''Liberado'' ''Realizada'' (1 / 10),
      example_surgery ''s2'' ''Bia'' ''2024-03-10T09:30'' ''H1'' ''Liberado'' ''Realizada'' (2 / 10)]
     = [Finite (3602879701896397 / 36028797018963968),
        Finite (3602879701896397 / 18014398509481984)]
   \<and> exact_sum
       [Finite (3602879701896397 / 36028797018963968),
        Finite (3602879701896397 / 18014398509481984)]
     = Some (10808639105689191 / 36028797018963968)
   \<and> monthRevenue (dashboard (- 10800000) 1710507600000
        [example_surgery ''s1'' ''Ana'' ''2024-03-01T08:00'' ''H1'' ''Liberado'' ''Realizada'' (1 / 10),
         example_surgery ''s2'' ''Bia'' ''2024-03-10T09:30'' ''H1'' ''Liberado'' ''Realizada'' (2 / 10)])
     = Finite (1351079888211149 / 4503599627370496)
   \<and> Finite (1351079888211149 / 4503599627370496)
     \<noteq> Finite (10808639105689191 / 36028797018963968)
   \<and> Finite (1351079888211149 / 4503599627370496) \<noteq> round_double (3 / 10)"
proof -
  have v: "or0 (Some (Finite (3602879701896397 / 36028797018963968)))
             = Finite (3602879701896397 / 36028797018963968)"
          "or0 (Some (Finite (3602879701896397 / 18014398509481984)))
             = Finite (3602879701896397 / 18014398509481984)"
    by (simp_all add: or0_def)
  have m: "map (\<lambda>s. or0 (totalValue s))
     [example_surgery ''s1'' ''Ana'' ''2024-03-01T08:00'' ''H1'' ''Liberado'' ''Realizada'' (1 / 10),
      example_surgery ''s2'' ''Bia'' ''2024-03-10T09:30'' ''H1'' ''Liberado'' ''Realizada'' (2 / 10)]
     = [Finite (3602879701896397 / 36028797018963968),
        Finite (3602879701896397 / 18014398509481984)]"
    by (simp only: list.map example_surgery_fields literal_doubles v)
  have e: "exact_sum
       [Finite (3602879701896397 / 36028797018963968),
        Finite (3602879701896397 / 18014398509481984)]
     = Some (10808639105689191 / 36028797018963968)"
    by simp
  have r: "monthRevenue (dashboard (- 10800000) 1710507600000
        [example_surgery ''s1'' ''Ana'' ''2024-03-01T08:00'' ''H1'' ''Liberado'' ''Realizada'' (1 / 10),
         example_surgery ''s2'' ''Bia'' ''2024-03-10T09:30'' ''H1'' ''Liberado'' ''Realizada'' (2 / 10)])
     = Finite (1351079888211149 / 4503599627370496)"
    by code_simp
  have n: "Finite (1351079888211149 / 4503599627370496)
     \<noteq> Finite (10808639105689191 / 36028797018963968)"
       "Finite (1351079888211149 / 4503599627370496) \<noteq> round_double (3 / 10)"
    by (simp_all add: literal_doubles)
  from m e r n show ?thesis by (simp only: simp_thms)
qed
section \<open>Report date range\<close>

text \<open>
  \<^bold>\<open>C2.\<close> The end bound of the report range is meant to be inclusive through the end of
  the end date in local time: the code sets the hours of the bound to 23:59:59.999. But
  the bound is built by \<open>new Date('YYYY-MM-DD')\<close>, and a date-only string is UTC midnight.
  West of UTC that instant is the evening of the day before in local time, so
  \<open>setHours\<close> moves the bound to the end of the \<^emph>\<open>previous\<close> local day. In UTC-3, with the
  range 2024-01-01 to 2024-01-31, the bound is 2024-01-30T23:59:59.999 local: the
  surgeries of 31 January (at 23:30, and at 08:00) are filtered out, the one of 30 January
  stays. In UTC the same surgery is kept.
\<close>

theorem report_end_date_excluded:
  "report_filteredSurgeries (- 10800000)
     [example_surgery ''s1'' ''Ana'' ''2024-01-31T23:30'' ''H1'' ''Liberado'' ''Realizada'' 100,
      example_surgery ''s2'' ''Bia'' ''2024-01-31T08:00'' ''H1'' ''Liberado'' ''Realizada'' 100,
      example_surgery ''s3'' ''Caio'' ''2024-01-30T23:30'' ''H1'' ''Liberado'' ''Realizada'' 100]
     \<lparr> startDate = ''2024-01-01'', endDate = ''2024-01-31'', doctorId = ''all'' \<rparr>
   = [example_surgery ''s3'' ''Caio'' ''2024-01-30T23:30'' ''H1'' ''Liberado'' ''Realizada'' 100]
   \<and> setHours (- 10800000) (new_Date_string (- 10800000) ''2024-01-31'') 23 59 59 999
       = new_Date_string (- 10800000) ''2024-01-30T23:59:59.999''
   \<and> report_filteredSurgeries 0
     [example_surgery ''s1'' ''Ana'' ''2024-01-31T23:30'' ''H1'' ''Liberado'' ''Realizada'' 100]
     \<lparr> startDate = ''2024-01-01'', endDate = ''2024-01-31'', doctorId = ''all'' \<rparr>
   = [example_surgery ''s1'' ''Ana'' ''2024-01-31T23:30'' ''H1'' ''Liberado'' ''Realizada'' 100]"
  by code_simp

subsection \<open>The end bound in general\<close>

lemma Date_parse_date_only:
  assumes "parse_date str = Some (y, m, d, [])" "1 \<le> m" "m \<le> 12" "1 \<le> d" "d \<le> 31"
  shows "Date_parse tza str = TimeClip (MakeDate (MakeDay y (m - 1) d) 0)"
  using assms by (simp add: Date_parse_def)

lemma parse_date_Nil: "parse_date [] = None"
  by (simp add: parse_date_def parse_year_def)

text \<open>
  The end bound that the report filter computes from a date-only end date, in a zone west of
  UTC: the last millisecond of the local day \<^emph>\<open>before\<close> the end date.
\<close>

lemma end_bound_west:
  assumes "- 86400000 \<le> tza" "tza < 0" "\<bar>MakeDate D 0\<bar> \<le> 8639999900000000"
  shows "setHours tza (TimeClip (MakeDate D 0)) 23 59 59 999 = Some (UTC tza (MakeDate D 0 - 1))"
proof -
  let ?E = "MakeDate D 0"
  have c: "TimeClip ?E = Some ?E" by (rule TimeClip_Some) (use assms(3) in linarith)
  have "LocalTime tza ?E = (D - 1) * 86400000 + (86400000 + tza)"
    by (simp add: LocalTime_def MakeDate_def msPerDay_def algebra_simps)
  then have "LocalTime tza ?E div 86400000 = D - 1"
    using divmod_unique(1) [of "86400000 + tza" 86400000 "D - 1"] assms(1,2) by simp
  then have d: "Day (LocalTime tza ?E) = D - 1" by (simp add: Day_def msPerDay_def)
  have l: "MakeDate (D - 1) (MakeTime 23 59 59 999) = ?E - 1"
    by (simp add: MakeDate_def MakeTime_def msPerDay_def msPerHour_def msPerMinute_def
          msPerSecond_def algebra_simps)
  have "\<bar>UTC tza (?E - 1)\<bar> \<le> 8640000000000000"
    using assms by (simp add: UTC_def)
  then show ?thesis
    by (simp add: setHours_def c d l TimeClip_Some)
qed

lemma end_bound_east:
  assumes "0 \<le> tza" "tza < 86400000" "\<bar>MakeDate D 0\<bar> \<le> 8639999900000000"
  shows "setHours tza (TimeClip (MakeDate D 0)) 23 59 59 999
         = Some (UTC tza (MakeDate D 0 + 86399999))"
proof -
  let ?E = "MakeDate D 0"
  have c: "TimeClip ?E = Some ?E" by (rule TimeClip_Some) (use assms(3) in linarith)
  have "LocalTime tza ?E = D * 86400000 + tza"
    by (simp add: LocalTime_def MakeDate_def msPerDay_def)
  then have "LocalTime tza ?E div 86400000 = D"
    using divmod_unique(1) [of tza 86400000 D] assms(1,2) by simp
  then have d: "Day (LocalTime tza ?E) = D" by (simp add: Day_def msPerDay_def)
  have l: "MakeDate D (MakeTime 23 59 59 999) = ?E + 86399999"
    by (simp add: MakeDate_def MakeTime_def msPerDay_def msPerHour_def msPerMinute_def
          msPerSecond_def)
  have "\<bar>UTC tza (?E + 86399999)\<bar> \<le> 8640000000000000"
    using assms by (simp add: UTC_def)
  then show ?thesis
    by (simp add: setHours_def c d l TimeClip_Some)
qed

lemma local_day_span:
  "MakeDate (Day t) 0 \<le> t \<and> t \<le> MakeDate (Day t) 0 + 86399999"
proof -
  have 1: "86400000 * (t div 86400000) \<le> t" by (rule div_lo) simp
  have 2: "t < 86400000 * (t div 86400000) + 86400000" by (rule div_hi) simp
  show ?thesis using 1 2 by (simp add: MakeDate_def Day_def msPerDay_def)
qed

text \<open>
  West of UTC, no surgery whose local date is the end date of the range is in the report;
  in UTC and east of it (and with no other filter set) every such surgery is.
\<close>

lemma report_end_date_west_of_utc:
  assumes tz: "- 86400000 \<le> tza" "tza < 0"
    and e: "parse_date (endDate filters) = Some (y, m, d, [])" "1 \<le> m" "m \<le> 12" "1 \<le> d" "d \<le> 31"
    and s: "new_Date_string tza (dateTime s) = Some t" "\<bar>t\<bar> \<le> 8639999700000000"
    and on: "YearFromTime (LocalTime tza t) = y" "MonthFromTime (LocalTime tza t) = m - 1"
      "DateFromTime (LocalTime tza t) = d"
  shows "s \<notin> set (report_filteredSurgeries tza ss filters)"
proof -
  let ?D = "MakeDay y (m - 1) d"
  have D: "?D = Day (LocalTime tza t)" using MakeDay_civil [of "LocalTime tza t"] on by simp
  note sp = local_day_span [of "LocalTime tza t", folded D]
  have r: "\<bar>MakeDate ?D 0\<bar> \<le> 8639999900000000"
    using sp s(2) tz by (simp add: LocalTime_def) linarith
  have ne: "endDate filters \<noteq> []" using e(1) parse_date_Nil by auto
  have p: "new_Date_string tza (endDate filters) = TimeClip (MakeDate ?D 0)"
    unfolding new_Date_string_def by (rule Date_parse_date_only [OF e])
  have b: "setHours tza (new_Date_string tza (endDate filters)) 23 59 59 999
           = Some (UTC tza (MakeDate ?D 0 - 1))"
    unfolding p by (rule end_bound_west [OF tz r])
  have "num_gt (Some t) (Some (UTC tza (MakeDate ?D 0 - 1)))"
    using sp by (simp add: num_gt_def num_lt_def UTC_def LocalTime_def)
  then show ?thesis
    by (simp add: report_filteredSurgeries_def Let_def s(1) b ne)
qed

lemma report_end_date_east_of_utc:
  assumes tz: "0 \<le> tza" "tza < 86400000"
    and e: "parse_date (endDate filters) = Some (y, m, d, [])" "1 \<le> m" "m \<le> 12" "1 \<le> d" "d \<le> 31"
    and f: "startDate filters = []" "doctorId filters = ''all''"
    and s: "new_Date_string tza (dateTime s) = Some t" "\<bar>t\<bar> \<le> 8639999700000000"
    and on: "YearFromTime (LocalTime tza t) = y" "MonthFromTime (LocalTime tza t) = m - 1"
      "DateFromTime (LocalTime tza t) = d"
    and mem: "s \<in> set ss"
  shows "s \<in> set (report_filteredSurgeries tza ss filters)"
proof -
  let ?D = "MakeDay y (m - 1) d"
  have D: "?D = Day (LocalTime tza t)" using MakeDay_civil [of "LocalTime tza t"] on by simp
  note sp = local_day_span [of "LocalTime tza t", folded D]
  have r: "\<bar>MakeDate ?D 0\<bar> \<le> 8639999900000000"
    using sp s(2) tz by (simp add: LocalTime_def) linarith
  have p: "new_Date_string tza (endDate filters) = TimeClip (MakeDate ?D 0)"
    unfolding new_Date_string_def by (rule Date_parse_date_only [OF e])
  have b: "setHours tza (new_Date_string tza (endDate filters)) 23 59 59 999
           = Some (UTC tza (MakeDate ?D 0 + 86399999))"
    unfolding p by (rule end_bound_east [OF tz r])
  have "\<not> num_gt (Some t) (Some (UTC tza (MakeDate ?D 0 + 86399999)))"
    using sp by (simp add: num_gt_def num_lt_def UTC_def LocalTime_def)
  then show ?thesis
    using mem by (simp add: report_filteredSurgeries_def Let_def s(1) b f)
qed

section \<open>Month grid\<close>

lemma push_nulls_closed: "push_nulls i (Some w) grid = grid @ replicate (nat (w - i)) None"
proof (induction "nat (w - i)" arbitrary: i grid)
  case 0
  then have "\<not> num_lt (Some i) (Some w)" by (simp add: num_lt_def)
  then show ?case using 0 by (subst push_nulls.simps) simp
next
  case (Suc n)
  then have lt: "num_lt (Some i) (Some w)" by (simp add: num_lt_def)
  have n: "n = nat (w - (i + 1))" using Suc(2) by linarith
  have "push_nulls i (Some w) grid = push_nulls (i + 1) (Some w) (grid @ [None])"
    using lt by (subst push_nulls.simps) simp
  also have "\<dots> = (grid @ [None]) @ replicate (nat (w - (i + 1))) None"
    by (rule Suc(1) [OF n])
  also have "\<dots> = grid @ replicate (nat (w - i)) None"
    using Suc(2) n by (simp add: replicate_app_Cons_same flip: Suc(2))
  finally show ?case .
qed

lemma push_days_closed:
  "push_days tza Y M i (Some n) grid
     = grid @ map (\<lambda>j. Some (new_Date tza Y M (Some j) (Some 0) (Some 0) (Some 0) (Some 0))) [i..n]"
proof (induction "nat (n + 1 - i)" arbitrary: i grid)
  case 0
  then have "\<not> num_le (Some i) (Some n)" by (simp add: num_le_def)
  moreover have "[i..n] = []" using 0 by simp
  ultimately show ?case by (subst push_days.simps) simp
next
  case (Suc k)
  then have le: "num_le (Some i) (Some n)" and le': "i \<le> n" by (simp_all add: num_le_def)
  have k: "k = nat (n + 1 - (i + 1))" using Suc(2) by linarith
  have "push_days tza Y M i (Some n) grid
          = push_days tza Y M (i + 1) (Some n)
              (grid @ [Some (new_Date tza Y M (Some i) (Some 0) (Some 0) (Some 0) (Some 0))])"
    using le by (subst push_days.simps) simp
  also have "\<dots> = (grid @ [Some (new_Date tza Y M (Some i) (Some 0) (Some 0) (Some 0) (Some 0))])
                   @ map (\<lambda>j. Some (new_Date tza Y M (Some j) (Some 0) (Some 0) (Some 0) (Some 0)))
                       [i + 1..n]"
    by (rule Suc(1) [OF k])
  also have "\<dots> = grid @ map (\<lambda>j. Some (new_Date tza Y M (Some j) (Some 0) (Some 0) (Some 0) (Some 0))) [i..n]"
    by (simp add: upto_rec1 [OF le'])
  finally show ?case .
qed

lemma local_midnight_fields:
  assumes "0 \<le> m" "m \<le> 11" "1 \<le> i" "i \<le> daysInMonth y m"
  shows "getFullYear tza (Some (local_midnight tza y m i)) = Some y"
    and "getMonth tza (Some (local_midnight tza y m i)) = Some m"
    and "getDate tza (Some (local_midnight tza y m i)) = Some i"
    and "getHours tza (Some (local_midnight tza y m i)) = Some 0"
    and "getMinutes tza (Some (local_midnight tza y m i)) = Some 0"
    and "getSeconds tza (Some (local_midnight tza y m i)) = Some 0"
    and "getMilliseconds tza (Some (local_midnight tza y m i)) = Some 0"
proof -
  have z: "(0::int) = MakeTime 0 0 0 0" by (simp add: MakeTime_def)
  have t: "(0::int) \<le> 0" "(0::int) < msPerDay" by (simp_all add: msPerDay_def)
  show "getFullYear tza (Some (local_midnight tza y m i)) = Some y"
    "getMonth tza (Some (local_midnight tza y m i)) = Some m"
    "getDate tza (Some (local_midnight tza y m i)) = Some i"
    by (simp_all add: getFullYear_def getMonth_def getDate_def local_midnight_def
          LocalTime_def UTC_def civil_of_MakeDay [OF assms t])
  show "getHours tza (Some (local_midnight tza y m i)) = Some 0"
    "getMinutes tza (Some (local_midnight tza y m i)) = Some 0"
    "getSeconds tza (Some (local_midnight tza y m i)) = Some 0"
    "getMilliseconds tza (Some (local_midnight tza y m i)) = Some 0"
    unfolding getHours_def getMinutes_def getSeconds_def getMilliseconds_def local_midnight_def
    by (subst z, simp add: time_fields_MakeDate LocalTime_def UTC_def)+
qed

lemma local_midnight_less: "i < j \<Longrightarrow> local_midnight tza y m i < local_midnight tza y m j"
  by (simp add: local_midnight_def UTC_def MakeDate_def MakeDay_def Let_def msPerDay_def)

text \<open>Every day of the month of a date is within 31 days of the date.\<close>

lemma local_midnight_near:
  assumes "y = YearFromTime (LocalTime tza t)" "m = MonthFromTime (LocalTime tza t)"
    "1 \<le> i" "i \<le> 31"
  shows "\<bar>local_midnight tza y m i - t\<bar> \<le> 2678400000"
proof -
  let ?t' = "LocalTime tza t"
  note c = civil_fields [of ?t']
  have mr: "0 \<le> m" "m \<le> 11" using c assms(2) by simp_all
  define d0 where "d0 = DateFromTime ?t'"
  have d0: "1 \<le> d0" "d0 \<le> 31" using c by (simp_all add: d0_def)
  have "MakeDay y m d0 = Day ?t'" unfolding assms(1,2) d0_def by (rule MakeDay_civil)
  then have md: "MakeDay y m i = Day ?t' + (i - d0)"
    using MakeDay_shift [OF mr, of y i d0] by simp
  define k where "k = Day ?t'"
  have 1: "?t' = 86400000 * k + ?t' mod 86400000"
    by (simp add: k_def Day_def msPerDay_def)
  have 2: "0 \<le> ?t' mod 86400000" "?t' mod 86400000 < 86400000" by simp_all
  have 3: "local_midnight tza y m i - t = 86400000 * k + 86400000 * i - 86400000 * d0 - ?t'"
    by (simp add: local_midnight_def UTC_def MakeDate_def md msPerDay_def LocalTime_def k_def
          algebra_simps)
  show ?thesis using 1 2 3 d0 assms(3,4) by linarith
qed

lemma new_Date_local_midnight:
  assumes "y = YearFromTime (LocalTime tza t)" "m = MonthFromTime (LocalTime tza t)"
    "y < 0 \<or> 99 < y" "\<bar>t\<bar> \<le> 8639997321600000" "1 \<le> i" "i \<le> 31"
  shows "new_Date tza (Some y) (Some m) (Some i) (Some 0) (Some 0) (Some 0) (Some 0)
         = Some (local_midnight tza y m i)"
proof -
  have f: "MakeFullYear y = y" using assms(3) by (auto simp: MakeFullYear_def)
  have "\<bar>local_midnight tza y m i - t\<bar> \<le> 2678400000"
    by (rule local_midnight_near [OF assms(1,2,5,6)])
  then have "\<bar>local_midnight tza y m i\<bar> \<le> 8640000000000000" using assms(4) by linarith
  then have "TimeClip (local_midnight tza y m i) = Some (local_midnight tza y m i)"
    by (rule TimeClip_Some)
  then show ?thesis
    by (simp add: new_Date_def f MakeTime_def local_midnight_def)
qed

text \<open>
  \<^bold>\<open>C5\<close>, as the code has it. For every valid reference date that is at least 31 days
  inside the range of \<open>Date\<close> and whose local year \<open>y\<close> is not one of 0..99, with local month
  \<open>m\<close>: the month grid is \<open>offset\<close> empty cells followed by one cell for each day
  \<open>1..daysInMonth y m\<close>, in this order and with nothing after them; its length is
  \<open>offset + daysInMonth y m\<close>; \<open>offset\<close> is the weekday of day 1 (\<open>getDay\<close>, 0 = Sunday); the
  cell of day \<open>i\<close> is the date whose local fields are year \<open>y\<close>, month \<open>m\<close>, day \<open>i\<close>,
  00:00:00.000; and the cells are in strictly increasing time.
\<close>

theorem calendarGrid_month:
  assumes cd: "currentDate = Some t"
    and r: "\<bar>t\<bar> \<le> 8639997321600000"
    and y: "getFullYear tza currentDate = Some y"
    and m: "getMonth tza currentDate = Some m"
    and yr: "y < 0 \<or> 99 < y"
  shows "\<exists>offset.
           calendarGrid tza currentDate
             = replicate offset None
               @ map (\<lambda>i. Some (Some (local_midnight tza y m i))) [1..daysInMonth y m]
           \<and> length (calendarGrid tza currentDate) = offset + nat (daysInMonth y m)
           \<and> getDay tza (Some (local_midnight tza y m 1)) = Some (int offset)
           \<and> (\<forall>i. 1 \<le> i \<and> i \<le> daysInMonth y m \<longrightarrow>
                 getFullYear tza (Some (local_midnight tza y m i)) = Some y
                 \<and> getMonth tza (Some (local_midnight tza y m i)) = Some m
                 \<and> getDate tza (Some (local_midnight tza y m i)) = Some i
                 \<and> getHours tza (Some (local_midnight tza y m i)) = Some 0
                 \<and> getMinutes tza (Some (local_midnight tza y m i)) = Some 0
                 \<and> getSeconds tza (Some (local_midnight tza y m i)) = Some 0
                 \<and> getMilliseconds tza (Some (local_midnight tza y m i)) = Some 0)
           \<and> (\<forall>i j. i < j \<longrightarrow> local_midnight tza y m i < local_midnight tza y m j)"
proof -
  have ye: "y = YearFromTime (LocalTime tza t)" and me: "m = MonthFromTime (LocalTime tza t)"
    using y m cd by (simp_all add: getFullYear_def getMonth_def)
  have mr: "0 \<le> m" "m \<le> 11" using civil_fields [of "LocalTime tza t"] me by simp_all
  note dr = daysInMonth_range [of y m]
  define w where "w = WeekDay (LocalTime tza (local_midnight tza y m 1))"
  define cell where "cell = (\<lambda>i. Some (Some (local_midnight tza y m i)) :: Date option)"
  have w0: "0 \<le> w" by (simp add: w_def WeekDay_def)
  have c: "\<And>i. 1 \<le> i \<Longrightarrow> i \<le> 31 \<Longrightarrow>
             new_Date tza (Some y) (Some m) (Some i) (Some 0) (Some 0) (Some 0) (Some 0)
             = Some (local_midnight tza y m i)"
    by (rule new_Date_local_midnight [OF ye me yr r])
  have first: "getDay tza (new_Date tza (Some y) (Some m) (Some 1) (Some 0) (Some 0) (Some 0) (Some 0))
               = Some w"
    by (simp add: c getDay_def w_def)
  have f: "MakeFullYear y = y" using yr by (auto simp: MakeFullYear_def)
  have "new_Date tza (Some y) (num_add (Some m) (Some 1)) (Some 0) (Some 0) (Some 0) (Some 0) (Some 0)
        = TimeClip (local_midnight tza y m (daysInMonth y m))"
    by (simp add: new_Date_def num_add_def f MakeTime_def local_midnight_def
          MakeDay_next_month_zero [OF mr])
  also have "\<dots> = new_Date tza (Some y) (Some m) (Some (daysInMonth y m))
                     (Some 0) (Some 0) (Some 0) (Some 0)"
    by (simp add: new_Date_def f MakeTime_def local_midnight_def)
  also have "\<dots> = Some (local_midnight tza y m (daysInMonth y m))"
    by (rule c) (use dr in simp_all)
  finally have probe:
    "getDate tza (new_Date tza (Some y) (num_add (Some m) (Some 1)) (Some 0)
                    (Some 0) (Some 0) (Some 0) (Some 0)) = Some (daysInMonth y m)"
    using local_midnight_fields(3) [OF mr, of "daysInMonth y m" y tza] dr by simp
  have cells: "map (\<lambda>j. Some (new_Date tza (Some y) (Some m) (Some j) (Some 0) (Some 0) (Some 0) (Some 0)))
                 [1..daysInMonth y m] = map cell [1..daysInMonth y m]"
    by (rule map_cong [OF refl]) (use c dr in \<open>simp add: cell_def\<close>)
  have grid: "calendarGrid tza currentDate
              = replicate (nat w) None @ map cell [1..daysInMonth y m]"
    unfolding calendarGrid_def Let_def y m first probe push_nulls_closed push_days_closed cells
    by simp
  have len: "length (calendarGrid tza currentDate) = nat w + nat (daysInMonth y m)"
    unfolding grid by simp
  have gd: "getDay tza (Some (local_midnight tza y m 1)) = Some (int (nat w))"
    using w0 by (simp add: getDay_def w_def)
  have fields: "\<forall>i. 1 \<le> i \<and> i \<le> daysInMonth y m \<longrightarrow>
                 getFullYear tza (Some (local_midnight tza y m i)) = Some y
                 \<and> getMonth tza (Some (local_midnight tza y m i)) = Some m
                 \<and> getDate tza (Some (local_midnight tza y m i)) = Some i
                 \<and> getHours tza (Some (local_midnight tza y m i)) = Some 0
                 \<and> getMinutes tza (Some (local_midnight tza y m i)) = Some 0
                 \<and> getSeconds tza (Some (local_midnight tza y m i)) = Some 0
                 \<and> getMilliseconds tza (Some (local_midnight tza y m i)) = Some 0"
    by (simp add: local_midnight_fields [OF mr])
  have ord: "\<forall>i j. i < j \<longrightarrow> local_midnight tza y m i < local_midnight tza y m j"
    by (simp add: local_midnight_less)
  from grid len gd fields ord show ?thesis unfolding cell_def by blast
qed

theorem calendarGrid_month_witness:
  "\<bar>1710507600000 :: int\<bar> \<le> 8639997321600000
   \<and> getFullYear (- 10800000) (Some 1710507600000) = Some 2024
   \<and> getMonth (- 10800000) (Some 1710507600000) = Some 2
   \<and> daysInMonth 2024 2 = 31
   \<and> getDay (- 10800000) (Some (local_midnight (- 10800000) 2024 2 1)) = Some 5
   \<and> length (calendarGrid (- 10800000) (Some 1710507600000)) = 36
   \<and> take 6 (calendarGrid (- 10800000) (Some 1710507600000))
       = [None, None, None, None, None, Some (Some 1709262000000)]"
proof -
  let ?tza = "- 10800000 :: int" and ?d = "Some 1710507600000 :: Date"
  have r: "\<bar>1710507600000 :: int\<bar> \<le> 8639997321600000" by simp
  have y: "getFullYear ?tza ?d = Some 2024" by code_simp
  have m: "getMonth ?tza ?d = Some 2" by code_simp
  have yr: "(2024::int) < 0 \<or> 99 < (2024::int)" by simp
  have dim: "daysInMonth 2024 2 = 31" by (simp add: daysInMonth_def)
  have gd: "getDay ?tza (Some (local_midnight ?tza 2024 2 1)) = Some 5" by code_simp
  obtain offset where
    l: "length (calendarGrid ?tza ?d) = offset + nat (daysInMonth 2024 2)"
    and o: "getDay ?tza (Some (local_midnight ?tza 2024 2 1)) = Some (int offset)"
    using calendarGrid_month [OF refl r y m yr] by blast
  have "offset = 5" using o gd by simp
  then have len: "length (calendarGrid ?tza ?d) = 36" using l dim by simp
  have tk: "take 6 (calendarGrid ?tza ?d) = [None, None, None, None, None, Some (Some 1709262000000)]"
    by code_simp
  from r y m dim gd len tk show ?thesis by blast
qed

text \<open>
  The claim is stated for every reference date. In the years 0..99 it fails, because
  \<open>new Date(year, month, 1)\<close> reads such a year as 1900 + year: for a reference date in
  February of the year 0 (a leap year, 29 days, the first a Tuesday) the grid is the one of
  February 1900: 4 empty cells and 28 days.
\<close>

theorem calendarGrid_month_counterexample:
  "getFullYear 0 (Date_parse 0 ''0000-02-15'') = Some 0
   \<and> getMonth 0 (Date_parse 0 ''0000-02-15'') = Some 1
   \<and> daysInMonth 0 1 = 29
   \<and> getDay 0 (Date_parse 0 ''0000-02-01'') = Some 2
   \<and> length (calendarGrid 0 (Date_parse 0 ''0000-02-15'')) = 32
   \<and> length (filter (\<lambda>c. c \<noteq> None) (calendarGrid 0 (Date_parse 0 ''0000-02-15''))) = 28
   \<and> calendarGrid 0 (Date_parse 0 ''0000-02-15'') ! 4 = Some (Date_parse 0 ''1900-02-01'')"
  by code_simp

end
